theory Spec2Isabelle
  imports Complex_Main "HOL-Library.Multiset"
begin

section \<open>Data model\<close>

text \<open>
  The optimizer works on Python floats; they are modelled as \<^typ>\<open>real\<close>, so the
  statements below are about the exact arithmetic the code writes down, not about rounding.
  The sums of the demand column are the exception: the section on binary64 has them with
  the rounding of every addition.
  A coordinate is the pair \<^verbatim>\<open>[lon, lat]\<close> in degrees. A row of the demand table
  has the columns \<^verbatim>\<open>Longitude\<close>, \<^verbatim>\<open>Latitude\<close> and \<^verbatim>\<open>DemandLbs\<close>;
  the assigned table adds \<^verbatim>\<open>Warehouse\<close> and \<^verbatim>\<open>TimeMin\<close>.
\<close>

type_synonym coord = "real \<times> real"

type_synonym supply_pt = "real \<times> real \<times> real"

record store =
  Longitude :: real
  Latitude :: real
  DemandLbs :: real

record assigned_row = store +
  Warehouse :: nat
  TimeMin :: real

record rdc =
  rdc_coords :: coord
  rdc_is_sdc :: bool

text \<open>
  The dictionary \<^verbatim>\<open>best\<close> that \<^verbatim>\<open>optimize\<close> returns; the field \<open>sol_x\<close> is
  the key \<^verbatim>\<open>'x'\<close> of the source.
\<close>

record solution =
  sol_k :: int
  sol_centers :: "coord list"
  sol_assigned :: "assigned_row list"
  sol_out_cost :: real
  sol_wh_cost :: real
  sol_in_cost :: real
  sol_trans_cost :: real
  sol_total_cost :: real
  sol_demand_per_wh :: "real list"

text \<open>The exceptions of the source that reach the caller of \<^verbatim>\<open>optimize\<close>.\<close>

datatype error = ValueError | IndexError | TypeError | ProviderException | ClusterError

section \<open>External collaborators\<close>

text \<open>
  The routing service is a parameter \<open>ors\<close>: what
  \<^verbatim>\<open>client.distance_matrix(...)["durations"]\<close> does for the given origins,
  destinations and key. It answers with a table of seconds (an entry is \<open>None\<close> where the
  service found no route), raises \<^verbatim>\<open>openrouteservice.exceptions.ApiError\<close>, or
  raises any other exception (time-out, connection, invalid key).
\<close>

datatype ors_response = Durations "real option list list" | ApiError | OtherException

type_synonym ors_client = "coord list \<Rightarrow> coord list \<Rightarrow> string \<Rightarrow> ors_response"

text \<open>
  The clustering library is a parameter \<open>KMeans\<close>: the value of
  \<^verbatim>\<open>KMeans(n_clusters=k_eff, n_init=10, random_state=42).fit(init_pts).cluster_centers_.tolist()\<close>,
  a function of \<open>k_eff\<close> and \<open>init_pts\<close> because the seed is fixed, or the exception it
  raises.
\<close>

type_synonym kmeans_lib = "int \<Rightarrow> coord list \<Rightarrow> error + coord list"

section \<open>utils.py\<close>

definition warehousing_cost :: "real \<Rightarrow> real \<Rightarrow> real \<Rightarrow> real \<Rightarrow> real" where
  "warehousing_cost demand sqft_per_lb cost_per_sqft fixed =
     fixed + demand * sqft_per_lb * cost_per_sqft"

text \<open>
  \<^verbatim>\<open>get_drive_time_matrix\<close> catches \<^verbatim>\<open>ApiError\<close> only and returns \<^verbatim>\<open>None\<close>
  for it; every other exception of the client leaves the function.
\<close>

definition get_drive_time_matrix ::
  "ors_client \<Rightarrow> coord list \<Rightarrow> coord list \<Rightarrow> string \<Rightarrow> error + real option list list option" where
  "get_drive_time_matrix ors origins destinations api_key =
     (case ors origins destinations api_key of
        Durations secs \<Rightarrow> Inr (Some secs)
      | ApiError \<Rightarrow> Inr None
      | OtherException \<Rightarrow> Inl ProviderException)"

section \<open>optimization.py: distance and travel time\<close>

definition EARTH_RADIUS_MILES :: real where
  "EARTH_RADIUS_MILES = 39588 / 10"

definition radians :: "real \<Rightarrow> real" where
  "radians x = x * pi / 180"

text \<open>
  \<^verbatim>\<open>_haversine_vec\<close> is applied elementwise by numpy; this is the function of one
  element, and the callers below map it over the arrays.
\<close>

definition haversine_vec :: "real \<Rightarrow> real \<Rightarrow> real \<Rightarrow> real \<Rightarrow> real" where
  "haversine_vec lon1 lat1 lon2 lat2 =
     (let lo1 = radians lon1; la1 = radians lat1; lo2 = radians lon2; la2 = radians lat2;
          dlon = lo2 - lo1;
          dlat = la2 - la1;
          a = (sin (dlat / 2))\<^sup>2 + cos la1 * cos la2 * (sin (dlon / 2))\<^sup>2
      in EARTH_RADIUS_MILES * 2 * arcsin (sqrt a))"

text \<open>
  \<^verbatim>\<open>np.array(secs) / 60.0\<close>: a table with a missing entry or with rows of different
  lengths makes numpy raise (an object array cannot be divided, a ragged table cannot be
  built); a rectangular table of numbers is divided entry by entry.
\<close>

definition np_array_div60 :: "real option list list \<Rightarrow> error + real list list" where
  "np_array_div60 secs =
     (if list_ex (list_ex (\<lambda>x. x = None)) secs then Inl TypeError
      else if list_ex (\<lambda>row. length row \<noteq> length (hd secs)) secs then Inl ValueError
      else Inr (map (map (\<lambda>x. the x / 60)) secs))"

text \<open>\<^verbatim>\<open>not api_key\<close> holds for \<^verbatim>\<open>None\<close> and for the empty string.\<close>

definition no_key :: "string option \<Rightarrow> bool" where
  "no_key api_key = (case api_key of None \<Rightarrow> True | Some s \<Rightarrow> s = [])"

text \<open>
  \<^verbatim>\<open>_drive_time_matrix\<close>: \<open>None\<close> without a key, and \<open>None\<close> for every exception
  raised inside the \<^verbatim>\<open>try\<close> block (\<^verbatim>\<open>except Exception\<close>). The handler prints a
  diagnostic line first; here the line is taken as printed, and
  \<open>drive_time_matrix_printing\<close> below has the function with the outcome of the
  \<^verbatim>\<open>print\<close>.
\<close>

definition drive_time_matrix ::
  "ors_client \<Rightarrow> coord list \<Rightarrow> coord list \<Rightarrow> string option \<Rightarrow> real list list option" where
  "drive_time_matrix ors orig dest api_key =
     (if no_key api_key then None
      else (case get_drive_time_matrix ors orig dest (the api_key) of
              Inl e \<Rightarrow> None
            | Inr None \<Rightarrow> None
            | Inr (Some secs) \<Rightarrow>
                (case np_array_div60 secs of Inl e \<Rightarrow> None | Inr mins \<Rightarrow> Some mins)))"

definition fallback_minutes :: "real \<Rightarrow> real \<Rightarrow> real \<Rightarrow> real \<Rightarrow> real" where
  "fallback_minutes lon1 lat1 lon2 lat2 = haversine_vec lon1 lat1 lon2 lat2 / 50 * 60"

text \<open>
  \<^verbatim>\<open>_drive_time_single\<close>; \<^verbatim>\<open>mat[0][0]\<close> raises \<^verbatim>\<open>IndexError\<close> on an empty
  table or an empty first row.
\<close>

definition drive_time_single ::
  "ors_client \<Rightarrow> real \<Rightarrow> real \<Rightarrow> real \<Rightarrow> real \<Rightarrow> string option \<Rightarrow> error + real" where
  "drive_time_single ors lon1 lat1 lon2 lat2 api_key =
     (case drive_time_matrix ors [(lon1, lat1)] [(lon2, lat2)] api_key of
        Some mat \<Rightarrow>
          (case mat of
             [] \<Rightarrow> Inl IndexError
           | row # _ \<Rightarrow> (case row of [] \<Rightarrow> Inl IndexError | t # _ \<Rightarrow> Inr t))
      | None \<Rightarrow> Inr (fallback_minutes lon1 lat1 lon2 lat2))"

section \<open>optimization.py: inbound and transfer helpers\<close>

text \<open>
  The product of two one-dimensional arrays: numpy multiplies entry by entry when the
  lengths agree, stretches an array of length one, and raises \<^verbatim>\<open>ValueError\<close>
  otherwise.
\<close>

definition np_mul :: "real list \<Rightarrow> real list \<Rightarrow> error + real list" where
  "np_mul xs ys =
     (if length xs = length ys then Inr (map (\<lambda>(x, y). x * y) (zip xs ys))
      else if length xs = 1 then Inr (map (\<lambda>y. hd xs * y) ys)
      else if length ys = 1 then Inr (map (\<lambda>x. x * hd ys) xs)
      else Inl ValueError)"

text \<open>
  The travel times from one supply point to every center, as the body of the loop of
  \<^verbatim>\<open>_transfer_time_multi\<close> computes them: the first row of the routed table
  (\<^verbatim>\<open>times[0]\<close>, an \<^verbatim>\<open>IndexError\<close> on an empty table), or the fallback.
\<close>

definition supply_times ::
  "ors_client \<Rightarrow> real \<Rightarrow> real \<Rightarrow> coord list \<Rightarrow> string option \<Rightarrow> error + real list" where
  "supply_times ors lon lat centers api_key =
     (case drive_time_matrix ors [(lon, lat)] centers api_key of
        None \<Rightarrow> Inr (map (\<lambda>(c_lon, c_lat). fallback_minutes lon lat c_lon c_lat) centers)
      | Some tms \<Rightarrow> (case tms of [] \<Rightarrow> Inl IndexError | row # _ \<Rightarrow> Inr row))"

fun transfer_loop ::
  "ors_client \<Rightarrow> coord list \<Rightarrow> real list \<Rightarrow> real \<Rightarrow> string option \<Rightarrow>
   supply_pt list \<Rightarrow> real \<Rightarrow> error + real" where
  "transfer_loop ors centers demand_per_wh inbound_rate api_key [] cost = Inr cost"
| "transfer_loop ors centers demand_per_wh inbound_rate api_key ((lon, lat, pct) # pts) cost =
     (case supply_times ors lon lat centers api_key of
        Inl e \<Rightarrow> Inl e
      | Inr tms \<Rightarrow>
          (case np_mul tms demand_per_wh of
             Inl e \<Rightarrow> Inl e
           | Inr td \<Rightarrow>
               transfer_loop ors centers demand_per_wh inbound_rate api_key pts
                 (cost + sum_list (map (\<lambda>x. x * pct * inbound_rate) td))))"

text \<open>
  \<^verbatim>\<open>_transfer_time_multi\<close>; \<^verbatim>\<open>centers[:, 0]\<close> raises \<^verbatim>\<open>IndexError\<close> when
  the list of centers is empty (the array then has one dimension).
\<close>

definition transfer_time_multi ::
  "ors_client \<Rightarrow> supply_pt list \<Rightarrow> coord list \<Rightarrow> real list \<Rightarrow> real \<Rightarrow> string option \<Rightarrow>
   error + real" where
  "transfer_time_multi ors inbound_pts centers demand_per_wh inbound_rate api_key =
     (if inbound_pts = [] then Inr 0
      else if centers = [] then Inl IndexError
      else transfer_loop ors centers demand_per_wh inbound_rate api_key inbound_pts 0)"

text \<open>
  \<^verbatim>\<open>_inbound_cost_to_multiple_rdcs\<close>: the two nested loops, the inner one over the
  supply points, with the running \<^verbatim>\<open>cost\<close> passed along.
\<close>

fun rdc_supply_loop ::
  "ors_client \<Rightarrow> real \<Rightarrow> real \<Rightarrow> string option \<Rightarrow> real \<Rightarrow> real \<Rightarrow>
   supply_pt list \<Rightarrow> real \<Rightarrow> error + real" where
  "rdc_supply_loop ors share inbound_rate api_key r_lon r_lat [] cost = Inr cost"
| "rdc_supply_loop ors share inbound_rate api_key r_lon r_lat ((lon, lat, pct) # pts) cost =
     (case drive_time_single ors r_lon r_lat lon lat api_key of
        Inl e \<Rightarrow> Inl e
      | Inr tmin \<Rightarrow>
          rdc_supply_loop ors share inbound_rate api_key r_lon r_lat pts
            (cost + tmin * share * pct * inbound_rate))"

fun rdc_loop ::
  "ors_client \<Rightarrow> real \<Rightarrow> real \<Rightarrow> string option \<Rightarrow> supply_pt list \<Rightarrow>
   coord list \<Rightarrow> real \<Rightarrow> error + real" where
  "rdc_loop ors share inbound_rate api_key inbound_pts [] cost = Inr cost"
| "rdc_loop ors share inbound_rate api_key inbound_pts ((r_lon, r_lat) # rdcs) cost =
     (case rdc_supply_loop ors share inbound_rate api_key r_lon r_lat inbound_pts cost of
        Inl e \<Rightarrow> Inl e
      | Inr cost' \<Rightarrow> rdc_loop ors share inbound_rate api_key inbound_pts rdcs cost')"

definition inbound_cost_to_multiple_rdcs ::
  "ors_client \<Rightarrow> real \<Rightarrow> supply_pt list \<Rightarrow> real \<Rightarrow> coord list \<Rightarrow> string option \<Rightarrow>
   error + real" where
  "inbound_cost_to_multiple_rdcs ors total_demand inbound_pts inbound_rate rdc_only_coords api_key =
     (if inbound_pts = [] \<or> rdc_only_coords = [] then Inr 0
      else (let share = total_demand / real (length rdc_only_coords)
            in rdc_loop ors share inbound_rate api_key inbound_pts rdc_only_coords 0))"

section \<open>optimization.py: assignment\<close>

text \<open>
  \<^verbatim>\<open>dists[:] = time_mat\<close> copies the routed table into an array of \<open>n\<close> rows and
  \<open>m\<close> columns. numpy stretches a table with one row, or with one column, to the shape
  of \<^verbatim>\<open>dists\<close>, and raises \<^verbatim>\<open>ValueError\<close> for any other shape. The empty table
  \<^verbatim>\<open>[]\<close> is an array of one dimension and length zero, which fits only \<open>m = 0\<close>.
\<close>

definition broadcast_into :: "nat \<Rightarrow> nat \<Rightarrow> real list list \<Rightarrow> error + real list list" where
  "broadcast_into n m time_mat =
     (case time_mat of
        [] \<Rightarrow> if m = 0 then Inr (replicate n []) else Inl ValueError
      | row0 # _ \<Rightarrow>
          (let r = length time_mat; c = length row0 in
           if (r = n \<or> r = 1) \<and> (c = m \<or> c = 1)
           then Inr (map (\<lambda>i. map (\<lambda>j. time_mat ! (if r = 1 then 0 else i) ! (if c = 1 then 0 else j))
                                 [0..<m])
                         [0..<n])
           else Inl ValueError))"

text \<open>
  The first half of \<^verbatim>\<open>_assign\<close>: the table \<^verbatim>\<open>dists\<close> of travel times, one row for
  each store and one column for each center.
\<close>

definition assign_dists ::
  "ors_client \<Rightarrow> store list \<Rightarrow> coord list \<Rightarrow> string option \<Rightarrow> error + real list list" where
  "assign_dists ors df centers api_key =
     (case drive_time_matrix ors (map (\<lambda>s. (Longitude s, Latitude s)) df) centers api_key of
        Some time_mat \<Rightarrow> broadcast_into (length df) (length centers) time_mat
      | None \<Rightarrow>
          Inr (map (\<lambda>s. map (\<lambda>(clon, clat).
                              fallback_minutes (Longitude s) (Latitude s) clon clat) centers)
                   df))"

text \<open>
  \<^verbatim>\<open>argmin\<close> of one row, as numpy computes it: a scan from the left that moves to a
  new position only for a strictly smaller entry. The arguments of the loop are the rest
  of the row, the position of its head, and the best position and value so far.
\<close>

fun argmin_loop :: "real list \<Rightarrow> nat \<Rightarrow> nat \<Rightarrow> real \<Rightarrow> nat" where
  "argmin_loop [] i bi bv = bi"
| "argmin_loop (x # xs) i bi bv =
     (if x < bv then argmin_loop xs (Suc i) i x else argmin_loop xs (Suc i) bi bv)"

definition argmin :: "real list \<Rightarrow> error + nat" where
  "argmin row = (case row of [] \<Rightarrow> Inl ValueError | x # xs \<Rightarrow> Inr (argmin_loop xs 1 0 x))"

text \<open>
  \<^verbatim>\<open>dists.argmin(axis=1)\<close> raises \<^verbatim>\<open>ValueError\<close> when there is no column, also
  for a table without rows; otherwise it is the \<^verbatim>\<open>argmin\<close> of each row.
\<close>

fun argmin_rows :: "real list list \<Rightarrow> error + nat list" where
  "argmin_rows [] = Inr []"
| "argmin_rows (row # rows) =
     (case argmin row of
        Inl e \<Rightarrow> Inl e
      | Inr i \<Rightarrow> (case argmin_rows rows of Inl e \<Rightarrow> Inl e | Inr is \<Rightarrow> Inr (i # is)))"

definition assign ::
  "ors_client \<Rightarrow> store list \<Rightarrow> coord list \<Rightarrow> string option \<Rightarrow> error + nat list \<times> real list" where
  "assign ors df centers api_key =
     (case assign_dists ors df centers api_key of
        Inl e \<Rightarrow> Inl e
      | Inr dists \<Rightarrow>
          if centers = [] then Inl ValueError
          else (case argmin_rows dists of
                  Inl e \<Rightarrow> Inl e
                | Inr idx \<Rightarrow> Inr (idx, map (\<lambda>(row, i). row ! i) (zip dists idx))))"

section \<open>optimization.py: optimize\<close>

text \<open>\<^verbatim>\<open>x or []\<close> for an optional list.\<close>

definition or_empty :: "'a list option \<Rightarrow> 'a list" where
  "or_empty xs = (case xs of None \<Rightarrow> [] | Some ys \<Rightarrow> ys)"

text \<open>
  \<^verbatim>\<open>for idx_fc, fc in enumerate(fixed_centers): centers[idx_fc] = fc\<close>; the assignment
  raises \<^verbatim>\<open>IndexError\<close> beyond the end of \<^verbatim>\<open>centers\<close>.
\<close>

fun override_fixed :: "coord list \<Rightarrow> nat \<Rightarrow> coord list \<Rightarrow> error + coord list" where
  "override_fixed centers idx_fc [] = Inr centers"
| "override_fixed centers idx_fc (fc # fcs) =
     (if idx_fc < length centers then override_fixed (centers[idx_fc := fc]) (Suc idx_fc) fcs
      else Inl IndexError)"

text \<open>The copy of the table with the columns \<^verbatim>\<open>Warehouse\<close> and \<^verbatim>\<open>TimeMin\<close>.\<close>

definition with_assignment :: "store list \<Rightarrow> nat list \<Rightarrow> real list \<Rightarrow> assigned_row list" where
  "with_assignment df idx tmin =
     map (\<lambda>(s, i, t). \<lparr>Longitude = Longitude s, Latitude = Latitude s, DemandLbs = DemandLbs s,
                       Warehouse = i, TimeMin = t\<rparr>)
         (zip df (zip idx tmin))"

text \<open>\<^verbatim>\<open>assigned.loc[assigned['Warehouse'] == i, 'DemandLbs'].sum()\<close>\<close>

definition demand_at :: "assigned_row list \<Rightarrow> nat \<Rightarrow> real" where
  "demand_at assigned i = sum_list (map DemandLbs (filter (\<lambda>r. Warehouse r = i) assigned))"

text \<open>
  The body of the loop over \<^verbatim>\<open>k_vals\<close>, up to the comparison with \<^verbatim>\<open>best\<close>: the
  dictionary that one candidate \<open>k\<close> yields, or the exception raised on the way.
\<close>

definition optimize_k ::
  "kmeans_lib \<Rightarrow> ors_client \<Rightarrow> store list \<Rightarrow> real \<Rightarrow> real \<Rightarrow> real \<Rightarrow> real \<Rightarrow> bool \<Rightarrow> real \<Rightarrow>
   supply_pt list \<Rightarrow> coord list \<Rightarrow> bool \<Rightarrow> string option \<Rightarrow> coord list \<Rightarrow> int \<Rightarrow>
   error + solution" where
  "optimize_k KMeans ors df rate_out_min sqft_per_lb cost_sqft fixed_cost consider_inbound
     inbound_rate_min inbound_pts fixed_centers use_drive_times ors_api_key init_pts k =
     (let k_eff = max k (int (length fixed_centers)) in
      case KMeans k_eff init_pts of
        Inl e \<Rightarrow> Inl e
      | Inr cluster_centers \<Rightarrow>
     (case override_fixed cluster_centers 0 fixed_centers of
        Inl e \<Rightarrow> Inl e
      | Inr centers \<Rightarrow>
     (case assign ors df centers (if use_drive_times then ors_api_key else None) of
        Inl e \<Rightarrow> Inl e
      | Inr (idx, tmin) \<Rightarrow>
     (let assigned = with_assignment df idx tmin;
          out_cost = sum_list (map (\<lambda>r. TimeMin r * DemandLbs r * rate_out_min) assigned);
          demand_list = map (demand_at assigned) [0..<length centers];
          wh_cost = foldl (\<lambda>acc demand.
                             acc + warehousing_cost demand sqft_per_lb cost_sqft fixed_cost)
                          0 demand_list;
          trans_cost = 0
      in case (if consider_inbound
               then transfer_time_multi ors inbound_pts centers demand_list inbound_rate_min
                      (if use_drive_times then ors_api_key else None)
               else Inr 0) of
           Inl e \<Rightarrow> Inl e
         | Inr inb_cost \<Rightarrow>
             Inr \<lparr>sol_k = k, sol_centers = centers, sol_assigned = assigned,
                  sol_out_cost = out_cost, sol_wh_cost = wh_cost, sol_in_cost = inb_cost,
                  sol_trans_cost = trans_cost,
                  sol_total_cost = out_cost + wh_cost + inb_cost + trans_cost,
                  sol_demand_per_wh = demand_list\<rparr>))))"

text \<open>
  The loop over \<^verbatim>\<open>k_vals\<close> with the variable \<^verbatim>\<open>best\<close>: a candidate replaces
  \<^verbatim>\<open>best\<close> when there is none yet or when its total cost is strictly lower. An
  exception in the body ends the loop.
\<close>

fun optimize_loop ::
  "(int \<Rightarrow> error + solution) \<Rightarrow> int list \<Rightarrow> solution option \<Rightarrow> error + solution option" where
  "optimize_loop body [] best = Inr best"
| "optimize_loop body (k # ks) best =
     (case body k of
        Inl e \<Rightarrow> Inl e
      | Inr cand \<Rightarrow>
          optimize_loop body ks
            (case best of
               None \<Rightarrow> Some cand
             | Some b \<Rightarrow> if sol_total_cost cand < sol_total_cost b then Some cand else Some b))"

definition optimize ::
  "kmeans_lib \<Rightarrow> ors_client \<Rightarrow> store list \<Rightarrow> int list \<Rightarrow> real \<Rightarrow> real \<Rightarrow> real \<Rightarrow> real \<Rightarrow> bool \<Rightarrow>
   real \<Rightarrow> supply_pt list option \<Rightarrow> coord list option \<Rightarrow> rdc list option \<Rightarrow> real \<Rightarrow>
   real option \<Rightarrow> real option \<Rightarrow> bool \<Rightarrow> string option \<Rightarrow> error + solution option" where
  "optimize KMeans ors df k_vals rate_out_min sqft_per_lb cost_sqft fixed_cost consider_inbound
     inbound_rate_min inbound_pts fixed_centers rdc_list transfer_rate_min rdc_sqft_per_lb
     rdc_cost_per_sqft use_drive_times ors_api_key =
     (let inbound_pts' = or_empty inbound_pts;
          fixed_centers' = or_empty fixed_centers;
          rdc_list' = or_empty rdc_list;
          store_coords = map (\<lambda>s. (Longitude s, Latitude s)) df;
          init_pts = (if fixed_centers' \<noteq> [] then store_coords @ fixed_centers'
                      else store_coords)
      in optimize_loop
           (optimize_k KMeans ors df rate_out_min sqft_per_lb cost_sqft fixed_cost
              consider_inbound inbound_rate_min inbound_pts' fixed_centers' use_drive_times
              ors_api_key init_pts)
           k_vals None)"

text \<open>
  The dictionary of the candidate \<open>k\<close> inside a call of \<^verbatim>\<open>optimize\<close>: the body of
  the loop with the arguments as \<^verbatim>\<open>optimize\<close> prepares them before the loop.
\<close>

definition candidate ::
  "kmeans_lib \<Rightarrow> ors_client \<Rightarrow> store list \<Rightarrow> real \<Rightarrow> real \<Rightarrow> real \<Rightarrow> real \<Rightarrow> bool \<Rightarrow> real \<Rightarrow>
   supply_pt list option \<Rightarrow> coord list option \<Rightarrow> bool \<Rightarrow> string option \<Rightarrow> int \<Rightarrow>
   error + solution" where
  "candidate KMeans ors df rate_out_min sqft_per_lb cost_sqft fixed_cost consider_inbound
     inbound_rate_min inbound_pts fixed_centers use_drive_times ors_api_key k =
     optimize_k KMeans ors df rate_out_min sqft_per_lb cost_sqft fixed_cost consider_inbound
       inbound_rate_min (or_empty inbound_pts) (or_empty fixed_centers) use_drive_times
       ors_api_key
       (if or_empty fixed_centers \<noteq> []
        then map (\<lambda>s. (Longitude s, Latitude s)) df @ or_empty fixed_centers
        else map (\<lambda>s. (Longitude s, Latitude s)) df)
       k"

section \<open>The inbound component as the specification states it\<close>

text \<open>
  The specification's inbound cost: for each active supply point with share \<open>p\<close> and rate
  \<open>r\<close>, for each center \<open>c\<close> with demand \<open>d\<^sub>c\<close>, the product
  \<open>travel_time (supply, c) * d\<^sub>c * p * r\<close>, summed over all pairs of a supply point and
  a center.
\<close>

definition inbound_formula ::
  "(coord \<Rightarrow> coord \<Rightarrow> real) \<Rightarrow> supply_pt list \<Rightarrow> coord list \<Rightarrow> real list \<Rightarrow> real \<Rightarrow> real" where
  "inbound_formula travel_time inbound_pts centers demand_per_wh r =
     sum_list (map (\<lambda>(lon, lat, p).
                 sum_list (map (\<lambda>(c, d). travel_time (lon, lat) c * d * p * r)
                               (zip centers demand_per_wh)))
               inbound_pts)"

text \<open>
  What the travel time between a supply point and a center is for \<^verbatim>\<open>_transfer_time_multi\<close>:
  the entry of the first row of the routed table for the call with this supply point and all
  centers, or the fallback when that call gives \<^verbatim>\<open>None\<close>. The predicate says that
  \<open>travel_time\<close> is this time for every supply point of the list.
\<close>

definition routed_or_fallback ::
  "ors_client \<Rightarrow> string option \<Rightarrow> coord list \<Rightarrow> supply_pt list \<Rightarrow> (coord \<Rightarrow> coord \<Rightarrow> real) \<Rightarrow> bool" where
  "routed_or_fallback ors api_key centers inbound_pts travel_time =
     list_all (\<lambda>(lon, lat, p).
        case drive_time_matrix ors [(lon, lat)] centers api_key of
          None \<Rightarrow> list_all (\<lambda>(c_lon, c_lat).
                     travel_time (lon, lat) (c_lon, c_lat) = fallback_minutes lon lat c_lon c_lat)
                   centers
        | Some mat \<Rightarrow> (case mat of [] \<Rightarrow> False
                       | row # _ \<Rightarrow> row = map (travel_time (lon, lat)) centers))
       inbound_pts"

section \<open>The routing layer with its diagnostic output\<close>




section \<open>Sums in binary64\<close>

text \<open>
  The column \<^verbatim>\<open>DemandLbs\<close> holds binary64 numbers, and \<^verbatim>\<open>.sum()\<close> adds them in
  binary64: each addition gives the exact sum rounded to the nearest binary64 number, a
  tie going to the even significand. \<open>round_to e x\<close> is the multiple of \<open>2\<^sup>e\<close>
  nearest to \<open>x\<close>. \<open>exponent64 x\<close> is the exponent of the last place of a significand
  of 53 bits for \<open>x\<close>: the least \<open>e\<close> from \<open>-1074\<close> on with
  \<open>\<bar>x\<bar> < 2\<^sup>e\<^sup>+\<^sup>5\<^sup>3\<close>, found by counting up to 971, the exponent of the last
  place of the largest numbers. A result of magnitude \<open>2\<^sup>1\<^sup>0\<^sup>2\<^sup>4\<close> or more is not a
  finite number; it is \<open>None\<close> here, and so is every sum made with it.
\<close>

definition round_to :: "int \<Rightarrow> real \<Rightarrow> real" where
  "round_to e x =
     (let q = x / 2 powi e; n = \<lfloor>q\<rfloor>; r = q - of_int n
      in of_int (if r < 1 / 2 then n
                 else if 1 / 2 < r then n + 1
                 else if even n then n else n + 1) * 2 powi e)"

fun exponent_from :: "nat \<Rightarrow> int \<Rightarrow> real \<Rightarrow> int" where
  "exponent_from 0 e x = e"
| "exponent_from (Suc n) e x =
     (if \<bar>x\<bar> < 2 powi (e + 53) then e else exponent_from n (e + 1) x)"

definition exponent64 :: "real \<Rightarrow> int" where
  "exponent64 x = exponent_from 2045 (- 1074) x"

definition round64 :: "real \<Rightarrow> real option" where
  "round64 x =
     (let y = round_to (exponent64 x) x in if \<bar>y\<bar> < 2 powi 1024 then Some y else None)"








section \<open>Sample collaborators and inputs\<close>

text \<open>
  A clustering stand-in that returns the first \<open>k_eff\<close> input points and, like the
  library, raises for fewer points than clusters or for no cluster at all.
\<close>

definition first_k_points :: kmeans_lib where
  "first_k_points k_eff pts =
     (if 1 \<le> k_eff \<and> nat k_eff \<le> length pts then Inr (take (nat k_eff) pts)
      else Inl ClusterError)"

text \<open>A routing service that is down: every call raises an exception of the transport.\<close>

definition ors_down :: ors_client where
  "ors_down origins destinations api_key = OtherException"

text \<open>A routing service that answers every call with the same table of seconds.\<close>

definition ors_table :: "real option list list \<Rightarrow> ors_client" where
  "ors_table secs origins destinations api_key = Durations secs"


definition one_store :: "store list" where
  "one_store = [\<lparr>Longitude = 0, Latitude = 0, DemandLbs = 10\<rparr>]"

definition two_stores :: "store list" where
  "two_stores = [\<lparr>Longitude = 0, Latitude = 0, DemandLbs = 10\<rparr>,
                 \<lparr>Longitude = 0, Latitude = 0, DemandLbs = 10\<rparr>]"

text \<open>The dictionary expected for \<open>k = 1\<close> on \<open>two_stores\<close> with the rates 1, 1, 1 and 5.\<close>

definition two_stores_best :: solution where
  "two_stores_best =
     \<lparr>sol_k = 1, sol_centers = [(0, 0)],
      sol_assigned =
        [\<lparr>Longitude = 0, Latitude = 0, DemandLbs = 10, Warehouse = 0, TimeMin = 0\<rparr>,
         \<lparr>Longitude = 0, Latitude = 0, DemandLbs = 10, Warehouse = 0, TimeMin = 0\<rparr>],
      sol_out_cost = 0, sol_wh_cost = 25, sol_in_cost = 0, sol_trans_cost = 0,
      sol_total_cost = 25, sol_demand_per_wh = [20]\<rparr>"





section \<open>The search over the candidate counts\<close>

lemma optimize_as_loop:
  "optimize KMeans ors df k_vals rate_out_min sqft_per_lb cost_sqft fixed_cost consider_inbound
     inbound_rate_min inbound_pts fixed_centers rdc_list transfer_rate_min rdc_sqft_per_lb
     rdc_cost_per_sqft use_drive_times ors_api_key =
   optimize_loop
     (candidate KMeans ors df rate_out_min sqft_per_lb cost_sqft fixed_cost consider_inbound
        inbound_rate_min inbound_pts fixed_centers use_drive_times ors_api_key)
     k_vals None"
  unfolding optimize_def candidate_def Let_def by (rule arg_cong3 [where f = optimize_loop]) auto

lemma optimize_loop_all:
  "optimize_loop body ks best = Inr r \<Longrightarrow> k \<in> set ks \<Longrightarrow> \<exists>c. body k = Inr c"
  by (induction ks arbitrary: best) (auto split: sum.splits)

lemma optimize_loop_Some:
  "optimize_loop body ks (Some b) = Inr r \<Longrightarrow>
   \<exists>s. r = Some s \<and>
     ((s = b \<and> (\<forall>k\<in>set ks. \<exists>c. body k = Inr c \<and> sol_total_cost b \<le> sol_total_cost c)) \<or>
      (\<exists>pre k post. ks = pre @ k # post \<and> body k = Inr s \<and>
          sol_total_cost s < sol_total_cost b \<and>
          (\<forall>k'\<in>set pre. \<exists>c. body k' = Inr c \<and> sol_total_cost s < sol_total_cost c) \<and>
          (\<forall>k'\<in>set post. \<exists>c. body k' = Inr c \<and> sol_total_cost s \<le> sol_total_cost c)))"
proof (induction ks arbitrary: b)
  case Nil
  then show ?case by simp
next
  case (Cons k0 ks)
  from Cons.prems obtain c0 where c0: "body k0 = Inr c0"
    by (auto split: sum.splits)
  show ?case
  proof (cases "sol_total_cost c0 < sol_total_cost b")
    case True
    with Cons.prems c0 have "optimize_loop body ks (Some c0) = Inr r" by simp
    from Cons.IH [OF this] obtain s where s: "r = Some s"
      and alt: "(s = c0 \<and> (\<forall>k\<in>set ks. \<exists>c. body k = Inr c \<and> sol_total_cost c0 \<le> sol_total_cost c)) \<or>
      (\<exists>pre k post. ks = pre @ k # post \<and> body k = Inr s \<and>
          sol_total_cost s < sol_total_cost c0 \<and>
          (\<forall>k'\<in>set pre. \<exists>c. body k' = Inr c \<and> sol_total_cost s < sol_total_cost c) \<and>
          (\<forall>k'\<in>set post. \<exists>c. body k' = Inr c \<and> sol_total_cost s \<le> sol_total_cost c))"
      by blast
    from alt show ?thesis
    proof
      assume a: "s = c0 \<and> (\<forall>k\<in>set ks. \<exists>c. body k = Inr c \<and> sol_total_cost c0 \<le> sol_total_cost c)"
      have "k0 # ks = [] @ k0 # ks" by simp
      with a c0 True s show ?thesis by fastforce
    next
      assume "\<exists>pre k post. ks = pre @ k # post \<and> body k = Inr s \<and>
          sol_total_cost s < sol_total_cost c0 \<and>
          (\<forall>k'\<in>set pre. \<exists>c. body k' = Inr c \<and> sol_total_cost s < sol_total_cost c) \<and>
          (\<forall>k'\<in>set post. \<exists>c. body k' = Inr c \<and> sol_total_cost s \<le> sol_total_cost c)"
      then obtain pre k post where d: "ks = pre @ k # post" "body k = Inr s"
          "sol_total_cost s < sol_total_cost c0"
          "\<forall>k'\<in>set pre. \<exists>c. body k' = Inr c \<and> sol_total_cost s < sol_total_cost c"
          "\<forall>k'\<in>set post. \<exists>c. body k' = Inr c \<and> sol_total_cost s \<le> sol_total_cost c"
        by blast
      have e: "k0 # ks = (k0 # pre) @ k # post" using d(1) by simp
      have f: "\<forall>k'\<in>set (k0 # pre). \<exists>c. body k' = Inr c \<and> sol_total_cost s < sol_total_cost c"
        using d(3,4) c0 by auto
      have g: "sol_total_cost s < sol_total_cost b" using d(3) True by simp
      show ?thesis using s e f g d(2,5) by blast
    qed
  next
    case False
    with Cons.prems c0 have "optimize_loop body ks (Some b) = Inr r" by simp
    from Cons.IH [OF this] obtain s where s: "r = Some s"
      and alt: "(s = b \<and> (\<forall>k\<in>set ks. \<exists>c. body k = Inr c \<and> sol_total_cost b \<le> sol_total_cost c)) \<or>
      (\<exists>pre k post. ks = pre @ k # post \<and> body k = Inr s \<and>
          sol_total_cost s < sol_total_cost b \<and>
          (\<forall>k'\<in>set pre. \<exists>c. body k' = Inr c \<and> sol_total_cost s < sol_total_cost c) \<and>
          (\<forall>k'\<in>set post. \<exists>c. body k' = Inr c \<and> sol_total_cost s \<le> sol_total_cost c))"
      by blast
    from alt show ?thesis
    proof
      assume a: "s = b \<and> (\<forall>k\<in>set ks. \<exists>c. body k = Inr c \<and> sol_total_cost b \<le> sol_total_cost c)"
      with c0 False s show ?thesis by auto
    next
      assume "\<exists>pre k post. ks = pre @ k # post \<and> body k = Inr s \<and>
          sol_total_cost s < sol_total_cost b \<and>
          (\<forall>k'\<in>set pre. \<exists>c. body k' = Inr c \<and> sol_total_cost s < sol_total_cost c) \<and>
          (\<forall>k'\<in>set post. \<exists>c. body k' = Inr c \<and> sol_total_cost s \<le> sol_total_cost c)"
      then obtain pre k post where d: "ks = pre @ k # post" "body k = Inr s"
          "sol_total_cost s < sol_total_cost b"
          "\<forall>k'\<in>set pre. \<exists>c. body k' = Inr c \<and> sol_total_cost s < sol_total_cost c"
          "\<forall>k'\<in>set post. \<exists>c. body k' = Inr c \<and> sol_total_cost s \<le> sol_total_cost c"
        by blast
      have e: "k0 # ks = (k0 # pre) @ k # post" using d(1) by simp
      have f: "\<forall>k'\<in>set (k0 # pre). \<exists>c. body k' = Inr c \<and> sol_total_cost s < sol_total_cost c"
        using d(3,4) c0 False by auto
      show ?thesis using s e f d(2,3,5) by blast
    qed
  qed
qed

lemma optimize_loop_None:
  assumes "optimize_loop body ks None = Inr r" and "ks \<noteq> []"
  shows "\<exists>s pre k post. r = Some s \<and> ks = pre @ k # post \<and> body k = Inr s \<and>
          (\<forall>k'\<in>set pre. \<exists>c. body k' = Inr c \<and> sol_total_cost s < sol_total_cost c) \<and>
          (\<forall>k'\<in>set post. \<exists>c. body k' = Inr c \<and> sol_total_cost s \<le> sol_total_cost c)"
proof -
  from assms(2) obtain k0 ks' where ks: "ks = k0 # ks'" by (cases ks) auto
  from assms(1) ks obtain c0 where c0: "body k0 = Inr c0"
    by (auto split: sum.splits)
  with assms(1) ks have "optimize_loop body ks' (Some c0) = Inr r" by simp
  from optimize_loop_Some [OF this] obtain s where s: "r = Some s"
      and alt: "(s = c0 \<and> (\<forall>k\<in>set ks'. \<exists>c. body k = Inr c \<and> sol_total_cost c0 \<le> sol_total_cost c)) \<or>
      (\<exists>pre k post. ks' = pre @ k # post \<and> body k = Inr s \<and>
          sol_total_cost s < sol_total_cost c0 \<and>
          (\<forall>k'\<in>set pre. \<exists>c. body k' = Inr c \<and> sol_total_cost s < sol_total_cost c) \<and>
          (\<forall>k'\<in>set post. \<exists>c. body k' = Inr c \<and> sol_total_cost s \<le> sol_total_cost c))"
    by blast
  from alt show ?thesis
  proof
    assume a: "s = c0 \<and> (\<forall>k\<in>set ks'. \<exists>c. body k = Inr c \<and> sol_total_cost c0 \<le> sol_total_cost c)"
    have "ks = [] @ k0 # ks'" using ks by simp
    with a c0 s show ?thesis by fastforce
  next
    assume "\<exists>pre k post. ks' = pre @ k # post \<and> body k = Inr s \<and>
          sol_total_cost s < sol_total_cost c0 \<and>
          (\<forall>k'\<in>set pre. \<exists>c. body k' = Inr c \<and> sol_total_cost s < sol_total_cost c) \<and>
          (\<forall>k'\<in>set post. \<exists>c. body k' = Inr c \<and> sol_total_cost s \<le> sol_total_cost c)"
    then obtain pre k post where d: "ks' = pre @ k # post" "body k = Inr s"
          "sol_total_cost s < sol_total_cost c0"
          "\<forall>k'\<in>set pre. \<exists>c. body k' = Inr c \<and> sol_total_cost s < sol_total_cost c"
          "\<forall>k'\<in>set post. \<exists>c. body k' = Inr c \<and> sol_total_cost s \<le> sol_total_cost c"
      by blast
    have e: "ks = (k0 # pre) @ k # post" using d(1) ks by simp
    have f: "\<forall>k'\<in>set (k0 # pre). \<exists>c. body k' = Inr c \<and> sol_total_cost s < sol_total_cost c"
      using d(3,4) c0 by auto
    show ?thesis using s e f d(2,5) by blast
  qed
qed

lemma optimize_loop_member:
  "optimize_loop body ks best = Inr (Some s) \<Longrightarrow> best = Some s \<or> (\<exists>k\<in>set ks. body k = Inr s)"
proof (induction ks arbitrary: best)
  case Nil
  then show ?case by simp
next
  case (Cons k0 ks)
  from Cons.prems obtain c0 where c0: "body k0 = Inr c0"
    by (auto split: sum.splits)
  let ?b = "case best of None \<Rightarrow> Some c0
            | Some b \<Rightarrow> if sol_total_cost c0 < sol_total_cost b then Some c0 else Some b"
  from Cons.prems c0 have "optimize_loop body ks ?b = Inr (Some s)" by simp
  from Cons.IH [OF this] have "?b = Some s \<or> (\<exists>k\<in>set ks. body k = Inr s)" .
  then show ?case
  proof
    assume "?b = Some s"
    then have "best = Some s \<or> c0 = s"
      by (auto split: option.splits if_splits)
    with c0 show ?thesis by auto
  next
    assume "\<exists>k\<in>set ks. body k = Inr s"
    then show ?thesis by auto
  qed
qed

lemma optimize_returns_candidate:
  assumes "optimize KMeans ors df k_vals rate_out_min sqft_per_lb cost_sqft fixed_cost
             consider_inbound inbound_rate_min inbound_pts fixed_centers rdc_list
             transfer_rate_min rdc_sqft_per_lb rdc_cost_per_sqft use_drive_times ors_api_key
           = Inr (Some s)"
  shows "\<exists>k\<in>set k_vals.
           candidate KMeans ors df rate_out_min sqft_per_lb cost_sqft fixed_cost consider_inbound
             inbound_rate_min inbound_pts fixed_centers use_drive_times ors_api_key k = Inr s"
  using optimize_loop_member [OF assms [unfolded optimize_as_loop]] by simp

lemma optimize_k_fields:
  assumes "optimize_k KMeans ors df rate_out_min sqft_per_lb cost_sqft fixed_cost
             consider_inbound inbound_rate_min inbound_pts fixed_centers use_drive_times
             ors_api_key init_pts k = Inr s"
  shows "sol_k s = k" and "sol_trans_cost s = 0"
    and "sol_total_cost s = sol_out_cost s + sol_wh_cost s + sol_in_cost s + sol_trans_cost s"
  using assms unfolding optimize_k_def Let_def
  by (auto split: sum.splits prod.splits if_splits)

lemma candidate_fields:
  assumes "candidate KMeans ors df rate_out_min sqft_per_lb cost_sqft fixed_cost
             consider_inbound inbound_rate_min inbound_pts fixed_centers use_drive_times
             ors_api_key k = Inr s"
  shows "sol_k s = k" and "sol_trans_cost s = 0"
  using assms unfolding candidate_def by (rule optimize_k_fields)+

section \<open>Sample runs\<close>

lemma fallback_minutes_same: "fallback_minutes lon lat lon lat = 0"
  by (simp add: fallback_minutes_def haversine_vec_def Let_def)

lemma two_stores_k1:
  "candidate first_k_points ors_down two_stores 1 1 1 5 False 0 None None False None 1 =
     Inr two_stores_best"
  by (simp add: candidate_def or_empty_def optimize_k_def first_k_points_def two_stores_def
      assign_def assign_dists_def drive_time_matrix_def no_key_def fallback_minutes_same
      argmin_def with_assignment_def demand_at_def warehousing_cost_def Let_def
      two_stores_best_def)

lemma two_stores_k2:
  "candidate first_k_points ors_down two_stores 1 1 1 5 False 0 None None False None 2 =
     Inr \<lparr>sol_k = 2, sol_centers = [(0, 0), (0, 0)],
       sol_assigned = [\<lparr>Longitude = 0, Latitude = 0, DemandLbs = 10, Warehouse = 0, TimeMin = 0\<rparr>,
                       \<lparr>Longitude = 0, Latitude = 0, DemandLbs = 10, Warehouse = 0, TimeMin = 0\<rparr>],
       sol_out_cost = 0, sol_wh_cost = 30, sol_in_cost = 0, sol_trans_cost = 0,
       sol_total_cost = 30, sol_demand_per_wh = [20, 0]\<rparr>"
  by (simp add: candidate_def or_empty_def optimize_k_def first_k_points_def two_stores_def
      assign_def assign_dists_def drive_time_matrix_def no_key_def fallback_minutes_same
      argmin_def with_assignment_def demand_at_def warehousing_cost_def Let_def upt_rec)

lemma two_stores_search:
  "optimize first_k_points ors_down two_stores [2, 1, 1] 1 1 1 5 False 0 None None rdcs tr a b
     False None = Inr (Some two_stores_best)"
  by (simp add: optimize_as_loop two_stores_k1 two_stores_k2 two_stores_best_def)

section \<open>Properties of the search\<close>

text \<open>
  C2. For a non-empty sequence of candidate counts, a call of \<^verbatim>\<open>optimize\<close> that
  returns has evaluated every requested \<open>k\<close> (each one yields a dictionary; an exception
  in any of them would have left the call), and it returns the dictionary of the first
  candidate whose total cost is the least: the candidates before it cost strictly more,
  those after it cost at least as much. So the first candidate is the initial best, a later
  one replaces it only with a strictly lower total, and ties stay with the earliest.
\<close>

theorem optimize_first_minimum:
  assumes "k_vals \<noteq> []"
    and "optimize KMeans ors df k_vals rate_out_min sqft_per_lb cost_sqft fixed_cost
           consider_inbound inbound_rate_min inbound_pts fixed_centers rdc_list
           transfer_rate_min rdc_sqft_per_lb rdc_cost_per_sqft use_drive_times ors_api_key
         = Inr r"
  shows "\<exists>s pre k post. r = Some s \<and> k_vals = pre @ k # post \<and>
           candidate KMeans ors df rate_out_min sqft_per_lb cost_sqft fixed_cost consider_inbound
             inbound_rate_min inbound_pts fixed_centers use_drive_times ors_api_key k = Inr s \<and>
           (\<forall>k'\<in>set pre. \<exists>c.
              candidate KMeans ors df rate_out_min sqft_per_lb cost_sqft fixed_cost
                consider_inbound inbound_rate_min inbound_pts fixed_centers use_drive_times
                ors_api_key k' = Inr c \<and>
              sol_total_cost s < sol_total_cost c) \<and>
           (\<forall>k'\<in>set post. \<exists>c.
              candidate KMeans ors df rate_out_min sqft_per_lb cost_sqft fixed_cost
                consider_inbound inbound_rate_min inbound_pts fixed_centers use_drive_times
                ors_api_key k' = Inr c \<and>
              sol_total_cost s \<le> sol_total_cost c)"
  using optimize_loop_None [OF assms(2) [unfolded optimize_as_loop] assms(1)] .

text \<open>
  The search over \<open>[2, 1, 1]\<close> on two stores at one place: \<open>k = 2\<close> costs 30, both
  runs of \<open>k = 1\<close> cost 25, and the result is the first of the two.
\<close>

theorem optimize_first_minimum_witness:
  "optimize first_k_points ors_down two_stores [2, 1, 1] 1 1 1 5 False 0 None None None 0
     None None False None = Inr (Some two_stores_best) \<and>
   (\<exists>pre k post. [2, 1, 1] = pre @ k # post \<and> pre = [2] \<and> k = 1 \<and> post = [1] \<and>
      candidate first_k_points ors_down two_stores 1 1 1 5 False 0 None None False None k
        = Inr two_stores_best)"
proof -
  have ne: "[2, 1, 1] \<noteq> ([] :: int list)" by simp
  obtain s pre k post where
    s: "Some two_stores_best = Some s"
    and d: "[2, 1, 1] = pre @ k # post"
    and c: "candidate first_k_points ors_down two_stores 1 1 1 5 False 0 None None False None k
            = Inr s"
    and lt: "\<forall>k'\<in>set pre. \<exists>c.
              candidate first_k_points ors_down two_stores 1 1 1 5 False 0 None None False None k'
                = Inr c \<and> sol_total_cost s < sol_total_cost c"
    using optimize_first_minimum [OF ne two_stores_search [of None 0 None None]] by blast
  from s have s': "s = two_stores_best" by simp
  have v: "sol_total_cost s = 25" by (simp add: s' two_stores_best_def)
  from d have "pre = [] \<or> pre = [2] \<or> pre = [2, 1]"
    by (auto simp: Cons_eq_append_conv append_eq_Cons_conv)
  moreover have "pre \<noteq> []" using d c v by (auto simp: two_stores_k2)
  moreover have "pre \<noteq> [2, 1]" using lt v by (auto simp: two_stores_k1 two_stores_best_def)
  ultimately have p: "pre = [2]" by blast
  with d have "k = 1" "post = [1]" by auto
  with d c s' p two_stores_search [of None 0 None None] show ?thesis by blast
qed

text \<open>
  C10. With an empty sequence of candidate counts \<^verbatim>\<open>optimize\<close> returns \<^verbatim>\<open>None\<close>
  and raises nothing; with a non-empty sequence a call that returns yields a dictionary,
  and its \<^verbatim>\<open>'k'\<close> is one of the counts supplied.
\<close>

theorem optimize_empty_or_member:
  "optimize KMeans ors df [] rate_out_min sqft_per_lb cost_sqft fixed_cost
        consider_inbound inbound_rate_min inbound_pts fixed_centers rdc_list transfer_rate_min rdc_sqft_per_lb rdc_cost_per_sqft
        use_drive_times ors_api_key = Inr None \<and>
   (k_vals \<noteq> [] \<longrightarrow>
    optimize KMeans ors df k_vals rate_out_min sqft_per_lb cost_sqft fixed_cost
        consider_inbound inbound_rate_min inbound_pts fixed_centers rdc_list transfer_rate_min rdc_sqft_per_lb rdc_cost_per_sqft
        use_drive_times ors_api_key = Inr r \<longrightarrow>
    (\<exists>s. r = Some s \<and> sol_k s \<in> set k_vals))"
proof (intro conjI impI)
  show "optimize KMeans ors df [] rate_out_min sqft_per_lb cost_sqft fixed_cost
        consider_inbound inbound_rate_min inbound_pts fixed_centers rdc_list transfer_rate_min rdc_sqft_per_lb rdc_cost_per_sqft
        use_drive_times ors_api_key = Inr None"
    by (simp add: optimize_as_loop)
next
  assume ne: "k_vals \<noteq> []"
    and run: "optimize KMeans ors df k_vals rate_out_min sqft_per_lb cost_sqft fixed_cost
        consider_inbound inbound_rate_min inbound_pts fixed_centers rdc_list transfer_rate_min rdc_sqft_per_lb rdc_cost_per_sqft
        use_drive_times ors_api_key = Inr r"
  from optimize_loop_None [OF run [unfolded optimize_as_loop] ne]
  obtain s pre k post where r: "r = Some s" and d: "k_vals = pre @ k # post"
    and c: "candidate KMeans ors df rate_out_min sqft_per_lb cost_sqft fixed_cost
              consider_inbound inbound_rate_min inbound_pts fixed_centers use_drive_times
              ors_api_key k = Inr s"
    by blast
  from c have "sol_k s = k" by (rule candidate_fields)
  with d have "sol_k s \<in> set k_vals" by simp
  with r show "\<exists>s. r = Some s \<and> sol_k s \<in> set k_vals" by blast
qed

theorem optimize_empty_or_member_witness:
  "optimize first_k_points ors_down two_stores [] 1 1 1 5 False 0 None None None 0 None None
     False None = Inr None \<and>
   optimize first_k_points ors_down two_stores [2, 1, 1] 1 1 1 5 False 0 None None None 0
     None None False None = Inr (Some two_stores_best) \<and>
   sol_k two_stores_best \<in> set [2, 1, 1]"
  using optimize_empty_or_member [of first_k_points ors_down two_stores 1 1 1 5 False 0 None
      None None 0 None None False None "[2, 1, 1]" "Some two_stores_best"]
    two_stores_search [of None 0 None None]
  by simp

text \<open>
  C9. The transfer component of every returned dictionary is 0, and the result of
  \<^verbatim>\<open>optimize\<close> does not depend on \<^verbatim>\<open>rdc_list\<close>, \<^verbatim>\<open>transfer_rate_min\<close>,
  \<^verbatim>\<open>rdc_sqft_per_lb\<close> and \<^verbatim>\<open>rdc_cost_per_sqft\<close>: two calls that differ only in
  these arguments return the same value, or raise the same exception.
\<close>

theorem optimize_ignores_rdc_arguments:
  "(optimize KMeans ors df k_vals rate_out_min sqft_per_lb cost_sqft fixed_cost
        consider_inbound inbound_rate_min inbound_pts fixed_centers rdc_list transfer_rate_min rdc_sqft_per_lb rdc_cost_per_sqft
        use_drive_times ors_api_key = Inr (Some s) \<longrightarrow> sol_trans_cost s = 0) \<and>
   optimize KMeans ors df k_vals rate_out_min sqft_per_lb cost_sqft fixed_cost
        consider_inbound inbound_rate_min inbound_pts fixed_centers rdc_list transfer_rate_min rdc_sqft_per_lb rdc_cost_per_sqft
        use_drive_times ors_api_key =
   optimize KMeans ors df k_vals rate_out_min sqft_per_lb cost_sqft fixed_cost
        consider_inbound inbound_rate_min inbound_pts fixed_centers rdc_list' transfer_rate_min' rdc_sqft_per_lb' rdc_cost_per_sqft'
        use_drive_times ors_api_key"
proof (intro conjI impI)
  assume "optimize KMeans ors df k_vals rate_out_min sqft_per_lb cost_sqft fixed_cost
        consider_inbound inbound_rate_min inbound_pts fixed_centers rdc_list transfer_rate_min rdc_sqft_per_lb rdc_cost_per_sqft
        use_drive_times ors_api_key = Inr (Some s)"
  from optimize_returns_candidate [OF this] obtain k where
    "candidate KMeans ors df rate_out_min sqft_per_lb cost_sqft fixed_cost consider_inbound
       inbound_rate_min inbound_pts fixed_centers use_drive_times ors_api_key k = Inr s"
    by blast
  then show "sol_trans_cost s = 0" by (rule candidate_fields)
next
  show "optimize KMeans ors df k_vals rate_out_min sqft_per_lb cost_sqft fixed_cost
        consider_inbound inbound_rate_min inbound_pts fixed_centers rdc_list transfer_rate_min rdc_sqft_per_lb rdc_cost_per_sqft
        use_drive_times ors_api_key =
   optimize KMeans ors df k_vals rate_out_min sqft_per_lb cost_sqft fixed_cost
        consider_inbound inbound_rate_min inbound_pts fixed_centers rdc_list' transfer_rate_min' rdc_sqft_per_lb' rdc_cost_per_sqft'
        use_drive_times ors_api_key"
    by (simp add: optimize_as_loop)
qed

theorem optimize_ignores_rdc_arguments_witness:
  "optimize first_k_points ors_down two_stores [2, 1, 1] 1 1 1 5 False 0 None None
     (Some [\<lparr>rdc_coords = (180, 0), rdc_is_sdc = False\<rparr>, \<lparr>rdc_coords = (-180, 0), rdc_is_sdc = False\<rparr>])
     3 (Some 2) (Some 7) False None = Inr (Some two_stores_best) \<and>
   sol_trans_cost two_stores_best = 0 \<and>
   optimize first_k_points ors_down two_stores [2, 1, 1] 1 1 1 5 False 0 None None
     (Some [\<lparr>rdc_coords = (180, 0), rdc_is_sdc = False\<rparr>, \<lparr>rdc_coords = (-180, 0), rdc_is_sdc = False\<rparr>])
     3 (Some 2) (Some 7) False None =
   optimize first_k_points ors_down two_stores [2, 1, 1] 1 1 1 5 False 0 None None None 0
     None None False None"
  using optimize_ignores_rdc_arguments [of first_k_points ors_down two_stores "[2, 1, 1]"
      1 1 1 5 False 0 None None
      "Some [\<lparr>rdc_coords = (180, 0), rdc_is_sdc = False\<rparr>, \<lparr>rdc_coords = (-180, 0), rdc_is_sdc = False\<rparr>]"
      3 "Some 2" "Some 7" False None two_stores_best None 0 None None]
    two_stores_search
  by simp

section \<open>Assignment to the nearest center\<close>

lemma argmin_loop_spec:
  assumes "bi < length pre" and "pre ! bi = bv" and "\<forall>j<length pre. bv \<le> pre ! j"
    and "\<forall>j<bi. bv < pre ! j" and "i = length pre"
  shows "argmin_loop xs i bi bv < length (pre @ xs) \<and>
         (\<forall>j<length (pre @ xs). (pre @ xs) ! argmin_loop xs i bi bv \<le> (pre @ xs) ! j) \<and>
         (\<forall>j<argmin_loop xs i bi bv. (pre @ xs) ! argmin_loop xs i bi bv < (pre @ xs) ! j)"
  using assms
proof (induction xs arbitrary: pre bi bv i)
  case Nil
  then show ?case by simp
next
  case (Cons x xs)
  have app: "pre @ x # xs = (pre @ [x]) @ xs" by simp
  show ?case
  proof (cases "x < bv")
    case True
    have a: "length pre < length (pre @ [x])" by simp
    have b: "(pre @ [x]) ! length pre = x" by simp
    have c: "\<forall>j<length (pre @ [x]). x \<le> (pre @ [x]) ! j"
    proof (intro allI impI)
      fix j assume "j < length (pre @ [x])"
      then have "j < length pre \<or> j = length pre" by auto
      then show "x \<le> (pre @ [x]) ! j"
      proof
        assume j: "j < length pre"
        with Cons.prems(3) have "bv \<le> pre ! j" by blast
        with True j show ?thesis by (simp add: nth_append)
      next
        assume "j = length pre"
        then show ?thesis by simp
      qed
    qed
    have d: "\<forall>j<length pre. x < (pre @ [x]) ! j"
    proof (intro allI impI)
      fix j assume j: "j < length pre"
      with Cons.prems(3) have "bv \<le> pre ! j" by blast
      with True j show "x < (pre @ [x]) ! j" by (simp add: nth_append)
    qed
    have e: "Suc i = length (pre @ [x])" using Cons.prems(5) by simp
    from Cons.IH [OF a b c d e] True Cons.prems(5) show ?thesis
      unfolding app by simp
  next
    case False
    have a: "bi < length (pre @ [x])" using Cons.prems(1) by simp
    have b: "(pre @ [x]) ! bi = bv" using Cons.prems(1,2) by (simp add: nth_append)
    have c: "\<forall>j<length (pre @ [x]). bv \<le> (pre @ [x]) ! j"
    proof (intro allI impI)
      fix j assume "j < length (pre @ [x])"
      then have "j < length pre \<or> j = length pre" by auto
      then show "bv \<le> (pre @ [x]) ! j"
      proof
        assume j: "j < length pre"
        with Cons.prems(3) show ?thesis by (simp add: nth_append)
      next
        assume "j = length pre"
        with False show ?thesis by simp
      qed
    qed
    have d: "\<forall>j<bi. bv < (pre @ [x]) ! j"
      using Cons.prems(1,4) by (simp add: nth_append)
    have e: "Suc i = length (pre @ [x])" using Cons.prems(5) by simp
    from Cons.IH [OF a b c d e] False show ?thesis
      unfolding app by simp
  qed
qed

lemma argmin_spec:
  assumes "row \<noteq> []"
  shows "\<exists>r. argmin row = Inr r \<and> r < length row \<and> (\<forall>j<length row. row ! r \<le> row ! j) \<and>
             (\<forall>j<r. row ! r < row ! j)"
proof -
  from assms obtain x xs where row: "row = x # xs" by (cases row) auto
  have "argmin_loop xs 1 0 x < length ([x] @ xs) \<and>
        (\<forall>j<length ([x] @ xs). ([x] @ xs) ! argmin_loop xs 1 0 x \<le> ([x] @ xs) ! j) \<and>
        (\<forall>j<argmin_loop xs 1 0 x. ([x] @ xs) ! argmin_loop xs 1 0 x < ([x] @ xs) ! j)"
    by (rule argmin_loop_spec) simp_all
  then show ?thesis by (simp add: row argmin_def)
qed

lemma argmin_rows_spec:
  assumes "\<forall>row\<in>set rows. row \<noteq> []"
  shows "\<exists>idx. argmin_rows rows = Inr idx \<and> length idx = length rows \<and>
           (\<forall>i<length rows. idx ! i < length (rows ! i) \<and>
              (\<forall>j<length (rows ! i). rows ! i ! (idx ! i) \<le> rows ! i ! j) \<and>
              (\<forall>j<idx ! i. rows ! i ! (idx ! i) < rows ! i ! j))"
  using assms
proof (induction rows)
  case Nil
  then show ?case by simp
next
  case (Cons row rows)
  from Cons.prems have "row \<noteq> []" by simp
  from argmin_spec [OF this] obtain r where r: "argmin row = Inr r" "r < length row"
    "\<forall>j<length row. row ! r \<le> row ! j" "\<forall>j<r. row ! r < row ! j" by blast
  from Cons.prems have "\<forall>row\<in>set rows. row \<noteq> []" by simp
  from Cons.IH [OF this] obtain idx where idx: "argmin_rows rows = Inr idx"
    "length idx = length rows"
    "\<forall>i<length rows. idx ! i < length (rows ! i) \<and>
              (\<forall>j<length (rows ! i). rows ! i ! (idx ! i) \<le> rows ! i ! j) \<and>
              (\<forall>j<idx ! i. rows ! i ! (idx ! i) < rows ! i ! j)" by blast
  have "\<forall>i<length (row # rows). (r # idx) ! i < length ((row # rows) ! i) \<and>
              (\<forall>j<length ((row # rows) ! i).
                  (row # rows) ! i ! ((r # idx) ! i) \<le> (row # rows) ! i ! j) \<and>
              (\<forall>j<(r # idx) ! i. (row # rows) ! i ! ((r # idx) ! i) < (row # rows) ! i ! j)"
  proof (intro allI impI)
    fix i assume "i < length (row # rows)"
    then show "(r # idx) ! i < length ((row # rows) ! i) \<and>
              (\<forall>j<length ((row # rows) ! i).
                  (row # rows) ! i ! ((r # idx) ! i) \<le> (row # rows) ! i ! j) \<and>
              (\<forall>j<(r # idx) ! i. (row # rows) ! i ! ((r # idx) ! i) < (row # rows) ! i ! j)"
      using r(2,3,4) idx(3) by (cases i) simp_all
  qed
  with r(1) idx(1,2) show ?case by simp
qed

lemma broadcast_into_shape:
  assumes "broadcast_into n m time_mat = Inr dists"
  shows "length dists = n \<and> (\<forall>row\<in>set dists. length row = m)"
proof (cases time_mat)
  case Nil
  with assms have "m = 0" and "dists = replicate n []"
    by (simp_all add: broadcast_into_def split: if_splits)
  then show ?thesis by simp
next
  case (Cons row0 rest)
  let ?r = "length time_mat" and ?c = "length row0"
  let ?d = "map (\<lambda>i. map (\<lambda>j. time_mat ! (if ?r = 1 then 0 else i) ! (if ?c = 1 then 0 else j))
                          [0..<m]) [0..<n]"
  have "broadcast_into n m time_mat =
          (if (?r = n \<or> ?r = 1) \<and> (?c = m \<or> ?c = 1) then Inr ?d else Inl ValueError)"
    unfolding broadcast_into_def Cons list.case Let_def ..
  with assms have "dists = ?d" by (simp split: if_splits)
  then show ?thesis by simp
qed

lemma assign_dists_shape:
  assumes "assign_dists ors df centers api_key = Inr dists"
  shows "length dists = length df \<and> (\<forall>row\<in>set dists. length row = length centers)"
proof (cases "drive_time_matrix ors (map (\<lambda>s. (Longitude s, Latitude s)) df) centers api_key")
  case None
  with assms have "dists = map (\<lambda>s. map (\<lambda>(clon, clat).
                      fallback_minutes (Longitude s) (Latitude s) clon clat) centers) df"
    by (simp add: assign_dists_def)
  then show ?thesis by simp
next
  case (Some time_mat)
  with assms have "broadcast_into (length df) (length centers) time_mat = Inr dists"
    by (simp add: assign_dists_def)
  then show ?thesis by (rule broadcast_into_shape)
qed

lemma assign_total:
  assumes "centers \<noteq> []" and "assign_dists ors df centers api_key = Inr dists"
  shows "\<exists>idx dist_min. assign ors df centers api_key = Inr (idx, dist_min) \<and>
           length idx = length df \<and> length dist_min = length df \<and> length dists = length df \<and>
           (\<forall>i<length df. idx ! i < length centers \<and> length (dists ! i) = length centers \<and>
              (\<forall>j<length centers. dists ! i ! (idx ! i) \<le> dists ! i ! j) \<and>
              (\<forall>j<idx ! i. dists ! i ! (idx ! i) < dists ! i ! j) \<and>
              dist_min ! i = dists ! i ! (idx ! i))"
proof -
  from assign_dists_shape [OF assms(2)]
  have len: "length dists = length df" and rows: "\<forall>row\<in>set dists. length row = length centers"
    by blast+
  from rows assms(1) have "\<forall>row\<in>set dists. row \<noteq> []" by auto
  from argmin_rows_spec [OF this] obtain idx where idx: "argmin_rows dists = Inr idx"
    "length idx = length dists"
    "\<forall>i<length dists. idx ! i < length (dists ! i) \<and>
              (\<forall>j<length (dists ! i). dists ! i ! (idx ! i) \<le> dists ! i ! j) \<and>
              (\<forall>j<idx ! i. dists ! i ! (idx ! i) < dists ! i ! j)" by blast
  define dm where "dm = map (\<lambda>(row, i). row ! i) (zip dists idx)"
  have run: "assign ors df centers api_key = Inr (idx, dm)"
    using assms idx(1) by (simp add: assign_def dm_def)
  have ldm: "length dm = length df" using idx(2) len by (simp add: dm_def)
  have lidx: "length idx = length df" using idx(2) len by simp
  have pt: "\<forall>i<length df. idx ! i < length centers \<and> length (dists ! i) = length centers \<and>
              (\<forall>j<length centers. dists ! i ! (idx ! i) \<le> dists ! i ! j) \<and>
              (\<forall>j<idx ! i. dists ! i ! (idx ! i) < dists ! i ! j) \<and>
              dm ! i = dists ! i ! (idx ! i)"
  proof (intro allI impI)
    fix i assume i: "i < length df"
    with len have i': "i < length dists" by simp
    with rows have l: "length (dists ! i) = length centers" by simp
    from idx(3) i' have a: "idx ! i < length (dists ! i)"
      and b: "\<forall>j<length (dists ! i). dists ! i ! (idx ! i) \<le> dists ! i ! j"
      and c: "\<forall>j<idx ! i. dists ! i ! (idx ! i) < dists ! i ! j" by blast+
    have d: "dm ! i = dists ! i ! (idx ! i)" using i' idx(2) by (simp add: dm_def)
    from a l have a': "idx ! i < length centers" by simp
    from b l have b': "\<forall>j<length centers. dists ! i ! (idx ! i) \<le> dists ! i ! j" by simp
    from a' l b' c d
    show "idx ! i < length centers \<and> length (dists ! i) = length centers \<and>
              (\<forall>j<length centers. dists ! i ! (idx ! i) \<le> dists ! i ! j) \<and>
              (\<forall>j<idx ! i. dists ! i ! (idx ! i) < dists ! i ! j) \<and>
              dm ! i = dists ! i ! (idx ! i)" by (intro conjI)
  qed
  show ?thesis
    apply (rule exI [of _ idx])
    apply (rule exI [of _ dm])
    using run lidx ldm len pt by (intro conjI)
qed

text \<open>
  C3. For a non-empty list of centers, whenever the table of travel times is built
  (\<open>assign_dists\<close> raises only for a routed table of the wrong shape), \<^verbatim>\<open>_assign\<close>
  returns: every store gets a center whose travel time is at most the travel time to every
  center of the list, strictly less than the time to every center of lower index (the
  lowest index wins a tie), and the stored time is the time to the chosen center.
\<close>

theorem assign_nearest_center:
  assumes "centers \<noteq> []" and "assign_dists ors df centers api_key = Inr dists"
  shows "\<exists>idx dist_min. assign ors df centers api_key = Inr (idx, dist_min) \<and>
           length idx = length df \<and> length dist_min = length df \<and> length dists = length df \<and>
           (\<forall>i<length df. idx ! i < length centers \<and> length (dists ! i) = length centers \<and>
              (\<forall>j<length centers. dists ! i ! (idx ! i) \<le> dists ! i ! j) \<and>
              (\<forall>j<idx ! i. dists ! i ! (idx ! i) < dists ! i ! j) \<and>
              dist_min ! i = dists ! i ! (idx ! i))"
  using assms by (rule assign_total)

lemma one_store_dists:
  "assign_dists (ors_table [[Some 120, Some 60, Some 60]]) one_store [(1, 1), (2, 2), (3, 3)]
     (Some ''key'') = Inr [[2, 1, 1]]"
  by (simp add: assign_dists_def drive_time_matrix_def no_key_def get_drive_time_matrix_def
      ors_table_def np_array_div60_def broadcast_into_def one_store_def upt_rec)

text \<open>
  One store and three centers at 2, 1 and 1 minutes: the second center is chosen, the
  first of the two nearest.
\<close>

theorem assign_nearest_center_witness:
  "[(1, 1), (2, 2), (3, 3)] \<noteq> ([] :: coord list) \<and>
   assign_dists (ors_table [[Some 120, Some 60, Some 60]]) one_store [(1, 1), (2, 2), (3, 3)]
     (Some ''key'') = Inr [[2, 1, 1]] \<and>
   assign (ors_table [[Some 120, Some 60, Some 60]]) one_store [(1, 1), (2, 2), (3, 3)]
     (Some ''key'') = Inr ([1], [1])"
proof -
  have ne: "[(1, 1), (2, 2), (3, 3)] \<noteq> ([] :: coord list)" by simp
  have run: "assign (ors_table [[Some 120, Some 60, Some 60]]) one_store
               [(1, 1), (2, 2), (3, 3)] (Some ''key'') = Inr ([1], [1])"
    by (simp add: assign_def one_store_dists argmin_def)
  from assign_nearest_center [OF ne one_store_dists] ne one_store_dists run
  show ?thesis by simp
qed

section \<open>Travel times without the routing service\<close>

lemma drive_time_matrix_no_key:
  "no_key api_key \<Longrightarrow> drive_time_matrix ors orig dest api_key = None"
  by (simp add: drive_time_matrix_def)

lemma assign_dists_fallback:
  assumes "drive_time_matrix ors (map (\<lambda>s. (Longitude s, Latitude s)) df) centers api_key = None"
  shows "assign_dists ors df centers api_key =
           Inr (map (\<lambda>s. map (\<lambda>c. haversine_vec (Longitude s) (Latitude s) (fst c) (snd c) / 50 * 60)
                          centers) df)"
  using assms by (simp add: assign_dists_def fallback_minutes_def case_prod_beta)

lemma haversine_vec_formula:
  "haversine_vec lon1 lat1 lon2 lat2 =
     39588 / 10 * 2 *
       arcsin (sqrt ((sin ((lat2 * pi / 180 - lat1 * pi / 180) / 2))\<^sup>2 +
                     cos (lat1 * pi / 180) * cos (lat2 * pi / 180) *
                       (sin ((lon2 * pi / 180 - lon1 * pi / 180) / 2))\<^sup>2))"
  unfolding haversine_vec_def radians_def EARTH_RADIUS_MILES_def Let_def ..

lemma assign_fallback_times:
  assumes none: "drive_time_matrix ors (map (\<lambda>s. (Longitude s, Latitude s)) df) centers api_key
                 = None"
    and run: "assign ors df centers api_key = Inr (idx, dist_min)"
    and i: "i < length df"
  shows "idx ! i < length centers \<and>
         dist_min ! i =
           haversine_vec (Longitude (df ! i)) (Latitude (df ! i))
             (fst (centers ! (idx ! i))) (snd (centers ! (idx ! i))) / 50 * 60"
proof -
  let ?dists = "map (\<lambda>s. map (\<lambda>c. haversine_vec (Longitude s) (Latitude s) (fst c) (snd c) / 50 * 60)
                              centers) df"
  have d: "assign_dists ors df centers api_key = Inr ?dists"
    using none by (rule assign_dists_fallback)
  have ne: "centers \<noteq> []"
    using run d by (auto simp: assign_def)
  from assign_total [OF ne d] run obtain
    a: "idx ! i < length centers" and b: "dist_min ! i = ?dists ! i ! (idx ! i)"
    using i by auto
  from b a i show ?thesis by simp
qed

text \<open>
  C5. Without a routing credential (\<^verbatim>\<open>None\<close> or the empty string)
  \<^verbatim>\<open>_drive_time_matrix\<close> returns \<^verbatim>\<open>None\<close> whatever the routing service would do,
  so the service has no part in the result; the table of travel times of \<^verbatim>\<open>_assign\<close>
  then holds \<open>haversine / 50 * 60\<close> for every pair of a store and a center, the time stored
  for a store is that value for its center, and the haversine distance is the great-circle
  formula on the radius 3958.8 with the degrees converted to radians.
\<close>

theorem no_key_fallback_times:
  assumes "no_key api_key"
  shows "drive_time_matrix ors orig dest api_key = None \<and>
         assign_dists ors df centers api_key =
           Inr (map (\<lambda>s. map (\<lambda>c. haversine_vec (Longitude s) (Latitude s) (fst c) (snd c) / 50 * 60)
                          centers) df) \<and>
         (\<forall>idx dist_min i. assign ors df centers api_key = Inr (idx, dist_min) \<longrightarrow> i < length df \<longrightarrow>
            dist_min ! i =
              haversine_vec (Longitude (df ! i)) (Latitude (df ! i))
                (fst (centers ! (idx ! i))) (snd (centers ! (idx ! i))) / 50 * 60) \<and>
         haversine_vec lon1 lat1 lon2 lat2 =
           39588 / 10 * 2 *
             arcsin (sqrt ((sin ((lat2 * pi / 180 - lat1 * pi / 180) / 2))\<^sup>2 +
                           cos (lat1 * pi / 180) * cos (lat2 * pi / 180) *
                             (sin ((lon2 * pi / 180 - lon1 * pi / 180) / 2))\<^sup>2))"
proof (intro conjI allI impI)
  show "drive_time_matrix ors orig dest api_key = None"
    using assms by (rule drive_time_matrix_no_key)
next
  show "assign_dists ors df centers api_key =
           Inr (map (\<lambda>s. map (\<lambda>c. haversine_vec (Longitude s) (Latitude s) (fst c) (snd c) / 50 * 60)
                          centers) df)"
    by (rule assign_dists_fallback) (rule drive_time_matrix_no_key [OF assms])
next
  fix idx dist_min i
  assume "assign ors df centers api_key = Inr (idx, dist_min)" and "i < length df"
  with assign_fallback_times [OF drive_time_matrix_no_key [OF assms]]
  show "dist_min ! i =
              haversine_vec (Longitude (df ! i)) (Latitude (df ! i))
                (fst (centers ! (idx ! i))) (snd (centers ! (idx ! i))) / 50 * 60"
    by blast
next
  show "haversine_vec lon1 lat1 lon2 lat2 =
           39588 / 10 * 2 *
             arcsin (sqrt ((sin ((lat2 * pi / 180 - lat1 * pi / 180) / 2))\<^sup>2 +
                           cos (lat1 * pi / 180) * cos (lat2 * pi / 180) *
                             (sin ((lon2 * pi / 180 - lon1 * pi / 180) / 2))\<^sup>2))"
    by (rule haversine_vec_formula)
qed

lemma haversine_vec_same: "haversine_vec lon lat lon lat = 0"
  by (simp add: haversine_vec_def Let_def)

lemma haversine_half_turn: "haversine_vec 0 0 180 0 = 39588 / 10 * pi"
  by (simp add: haversine_vec_def radians_def EARTH_RADIUS_MILES_def Let_def)

text \<open>
  The empty key with a service that would answer: one store at the origin, a center at the
  same place and a center half a turn away along the equator.
\<close>

theorem no_key_fallback_times_witness:
  "no_key (Some '''') \<and>
   drive_time_matrix (ors_table [[Some 1, Some 1]]) [(0, 0)] [(0, 0), (180, 0)] (Some '''') = None \<and>
   assign_dists (ors_table [[Some 1, Some 1]]) one_store [(0, 0), (180, 0)] (Some '''') =
     Inr [[0, 39588 / 10 * pi / 50 * 60]] \<and>
   haversine_vec 0 0 180 0 = 39588 / 10 * pi"
proof -
  have k: "no_key (Some '''')" by (simp add: no_key_def)
  from no_key_fallback_times [OF k, of "ors_table [[Some 1, Some 1]]" "[(0, 0)]"
      "[(0, 0), (180, 0)]" one_store "[(0, 0), (180, 0)]" 0 0 180 0] k
  show ?thesis
    by (simp add: one_store_def haversine_half_turn haversine_vec_same)
qed

section \<open>Failures of the routing service\<close>







section \<open>The parts of one candidate\<close>

lemma optimize_k_parts:
  assumes "optimize_k KMeans ors df rate_out_min sqft_per_lb cost_sqft fixed_cost
             consider_inbound inbound_rate_min inbound_pts fixed_centers use_drive_times
             ors_api_key init_pts k = Inr s"
  shows "\<exists>cluster_centers idx tmin.
           KMeans (max k (int (length fixed_centers))) init_pts = Inr cluster_centers \<and>
           override_fixed cluster_centers 0 fixed_centers = Inr (sol_centers s) \<and>
           assign ors df (sol_centers s) (if use_drive_times then ors_api_key else None)
             = Inr (idx, tmin) \<and>
           sol_assigned s = with_assignment df idx tmin \<and>
           sol_demand_per_wh s =
             map (demand_at (with_assignment df idx tmin)) [0..<length (sol_centers s)] \<and>
           (if consider_inbound
            then transfer_time_multi ors inbound_pts (sol_centers s) (sol_demand_per_wh s)
                   inbound_rate_min (if use_drive_times then ors_api_key else None)
            else Inr 0) = Inr (sol_in_cost s)"
proof -
  from assms obtain cl where cl: "KMeans (max k (int (length fixed_centers))) init_pts = Inr cl"
    unfolding optimize_k_def Let_def by (cases "KMeans (max k (int (length fixed_centers))) init_pts") auto
  from assms cl obtain centers where centers: "override_fixed cl 0 fixed_centers = Inr centers"
    unfolding optimize_k_def Let_def by (cases "override_fixed cl 0 fixed_centers") auto
  let ?key = "if use_drive_times then ors_api_key else None"
  from assms cl centers obtain idx tmin where a: "assign ors df centers ?key = Inr (idx, tmin)"
    unfolding optimize_k_def Let_def by (cases "assign ors df centers ?key") auto
  let ?assigned = "with_assignment df idx tmin"
  let ?dl = "map (demand_at ?assigned) [0..<length centers]"
  let ?inb = "if consider_inbound
              then transfer_time_multi ors inbound_pts centers ?dl inbound_rate_min ?key
              else Inr 0"
  from assms cl centers a obtain inb where inb: "?inb = Inr inb"
    unfolding optimize_k_def Let_def by (cases ?inb) auto
  from assms cl centers a inb have
    "s = \<lparr>sol_k = k, sol_centers = centers, sol_assigned = ?assigned,
          sol_out_cost = sum_list (map (\<lambda>r. TimeMin r * DemandLbs r * rate_out_min) ?assigned),
          sol_wh_cost = foldl (\<lambda>acc demand.
                             acc + warehousing_cost demand sqft_per_lb cost_sqft fixed_cost) 0 ?dl,
          sol_in_cost = inb, sol_trans_cost = 0,
          sol_total_cost = sum_list (map (\<lambda>r. TimeMin r * DemandLbs r * rate_out_min) ?assigned)
             + foldl (\<lambda>acc demand.
                             acc + warehousing_cost demand sqft_per_lb cost_sqft fixed_cost) 0 ?dl
             + inb + 0,
          sol_demand_per_wh = ?dl\<rparr>"
    unfolding optimize_k_def Let_def by (simp split: if_splits)
  then have f: "sol_centers s = centers" "sol_assigned s = ?assigned" "sol_demand_per_wh s = ?dl"
    "sol_in_cost s = inb" by simp_all
  show ?thesis
    apply (rule exI [of _ cl])
    apply (rule exI [of _ idx])
    apply (rule exI [of _ tmin])
    unfolding f using cl centers a inb by (intro conjI refl)
qed

section \<open>Conservation of demand\<close>

lemma sum_list_single_index:
  "w < m \<Longrightarrow> sum_list (map (\<lambda>i. if w = i then d else 0) [0..<m]) = (d :: 'a :: comm_monoid_add)"
proof (induction m)
  case 0
  then show ?case by simp
next
  case (Suc m)
  show ?case
  proof (cases "w < m")
    case True
    with Suc.IH show ?thesis by simp
  next
    case False
    with Suc.prems have w: "w = m" by simp
    have "sum_list (map (\<lambda>i. if m = i then d else 0) [0..<m]) = sum_list (map (\<lambda>i. 0) [0..<m])"
      by (rule arg_cong [where f = sum_list]) simp
    then show ?thesis by (simp add: w)
  qed
qed

lemma demand_at_Cons:
  "demand_at (r # rs) i = (if Warehouse r = i then DemandLbs r else 0) + demand_at rs i"
  by (simp add: demand_at_def)

lemma demand_groups_sum:
  assumes "\<forall>r\<in>set rows. Warehouse r < m"
  shows "sum_list (map (demand_at rows) [0..<m]) = sum_list (map DemandLbs rows)"
  using assms
proof (induction rows)
  case Nil
  show ?case by (simp add: demand_at_def)
next
  case (Cons r rows)
  from Cons.prems have w: "Warehouse r < m" and rest: "\<forall>r\<in>set rows. Warehouse r < m" by simp_all
  have "demand_at (r # rows) =
        (\<lambda>i. (if Warehouse r = i then DemandLbs r else 0) + demand_at rows i)"
    by (rule ext) (rule demand_at_Cons)
  then have "sum_list (map (demand_at (r # rows)) [0..<m]) =
        sum_list (map (\<lambda>i. (if Warehouse r = i then DemandLbs r else 0) + demand_at rows i) [0..<m])"
    by (rule arg_cong)
  also have "\<dots> = sum_list (map (\<lambda>i. if Warehouse r = i then DemandLbs r else 0) [0..<m]) +
                   sum_list (map (demand_at rows) [0..<m])"
    by (rule sum_list_addf)
  also have "\<dots> = DemandLbs r + sum_list (map DemandLbs rows)"
    using sum_list_single_index [OF w] Cons.IH [OF rest] by simp
  finally show ?case by simp
qed

lemma with_assignment_facts:
  assumes "length idx = length df" and "length tmin = length df"
  shows "length (with_assignment df idx tmin) = length df"
    and "map DemandLbs (with_assignment df idx tmin) = map DemandLbs df"
    and "map Warehouse (with_assignment df idx tmin) = idx"
    and "map TimeMin (with_assignment df idx tmin) = tmin"
proof -
  show "length (with_assignment df idx tmin) = length df"
    using assms by (simp add: with_assignment_def)
  have l: "length (zip idx tmin) = length df" using assms by simp
  have "map DemandLbs (with_assignment df idx tmin) =
        map (\<lambda>p. DemandLbs (fst p)) (zip df (zip idx tmin))"
    by (simp add: with_assignment_def case_prod_beta)
  also have "\<dots> = map DemandLbs (map fst (zip df (zip idx tmin)))" by simp
  also have "map fst (zip df (zip idx tmin)) = df" using l by simp
  finally show "map DemandLbs (with_assignment df idx tmin) = map DemandLbs df" .
  have "map Warehouse (with_assignment df idx tmin) =
        map (\<lambda>p. fst (snd p)) (zip df (zip idx tmin))"
    by (simp add: with_assignment_def case_prod_beta)
  also have "\<dots> = map fst (map snd (zip df (zip idx tmin)))" by simp
  also have "map snd (zip df (zip idx tmin)) = zip idx tmin" using l by simp
  also have "map fst (zip idx tmin) = idx" using assms by simp
  finally show "map Warehouse (with_assignment df idx tmin) = idx" .
  have "map TimeMin (with_assignment df idx tmin) =
        map (\<lambda>p. snd (snd p)) (zip df (zip idx tmin))"
    by (simp add: with_assignment_def case_prod_beta)
  also have "\<dots> = map snd (map snd (zip df (zip idx tmin)))" by simp
  also have "map snd (zip df (zip idx tmin)) = zip idx tmin" using l by simp
  also have "map snd (zip idx tmin) = tmin" using assms by simp
  finally show "map TimeMin (with_assignment df idx tmin) = tmin" .
qed

lemma assign_shape:
  assumes "assign ors df centers api_key = Inr (idx, tmin)"
  shows "centers \<noteq> []" and "length idx = length df" and "length tmin = length df"
    and "\<forall>i<length df. idx ! i < length centers"
proof -
  from assms obtain dists where d: "assign_dists ors df centers api_key = Inr dists"
    by (cases "assign_dists ors df centers api_key") (auto simp: assign_def)
  from assms d show ne: "centers \<noteq> []" by (auto simp: assign_def)
  from assign_total [OF ne d] assms
  show "length idx = length df" and "length tmin = length df"
    and "\<forall>i<length df. idx ! i < length centers" by auto
qed

lemma optimize_k_conserves:
  assumes "optimize_k KMeans ors df rate_out_min sqft_per_lb cost_sqft fixed_cost
             consider_inbound inbound_rate_min inbound_pts fixed_centers use_drive_times
             ors_api_key init_pts k = Inr s"
  shows "sum_list (sol_demand_per_wh s) = sum_list (map DemandLbs df) \<and>
         length (sol_demand_per_wh s) = length (sol_centers s) \<and>
         length (sol_assigned s) = length df \<and>
         map DemandLbs (sol_assigned s) = map DemandLbs df \<and>
         (\<forall>r\<in>set (sol_assigned s). Warehouse r < length (sol_centers s))"
proof -
  from optimize_k_parts [OF assms] obtain idx tmin where
    a: "assign ors df (sol_centers s) (if use_drive_times then ors_api_key else None)
          = Inr (idx, tmin)"
    and sa: "sol_assigned s = with_assignment df idx tmin"
    and dl: "sol_demand_per_wh s =
               map (demand_at (with_assignment df idx tmin)) [0..<length (sol_centers s)]"
    by blast
  note sh = assign_shape [OF a]
  note wf = with_assignment_facts [OF sh(2) sh(3)]
  have rng: "\<forall>r\<in>set (with_assignment df idx tmin). Warehouse r < length (sol_centers s)"
  proof
    fix r assume "r \<in> set (with_assignment df idx tmin)"
    then have "Warehouse r \<in> set (map Warehouse (with_assignment df idx tmin))" by simp
    then have "Warehouse r \<in> set idx" by (simp only: wf(3))
    then obtain i where "i < length idx" "idx ! i = Warehouse r" by (auto simp: in_set_conv_nth)
    with sh(2,4) show "Warehouse r < length (sol_centers s)" by auto
  qed
  have "sum_list (sol_demand_per_wh s) = sum_list (map DemandLbs (with_assignment df idx tmin))"
    unfolding dl by (rule demand_groups_sum [OF rng])
  then have c1: "sum_list (sol_demand_per_wh s) = sum_list (map DemandLbs df)"
    by (simp only: wf(2))
  have c2: "length (sol_demand_per_wh s) = length (sol_centers s)" by (simp add: dl)
  from c1 c2 wf(1,2) rng show ?thesis unfolding sa by (intro conjI)
qed

section \<open>The list of centers\<close>

lemma override_fixed_spec:
  assumes "override_fixed cl i fcs = Inr cs" and "i \<le> length cl"
  shows "length cs = length cl \<and> i + length fcs \<le> length cl \<and>
         (\<forall>j<length fcs. cs ! (i + j) = fcs ! j) \<and>
         (\<forall>j<length cl. j < i \<or> i + length fcs \<le> j \<longrightarrow> cs ! j = cl ! j)"
  using assms
proof (induction fcs arbitrary: cl i)
  case Nil
  then show ?case by simp
next
  case (Cons fc fcs)
  from Cons.prems have i: "i < length cl"
    and run: "override_fixed (cl[i := fc]) (Suc i) fcs = Inr cs"
    by (simp_all split: if_splits)
  from i have i': "Suc i \<le> length (cl[i := fc])" by simp
  from Cons.IH [OF run i'] have len: "length cs = length cl"
    and bound: "Suc i + length fcs \<le> length cl"
    and fixed: "\<forall>j<length fcs. cs ! (Suc i + j) = fcs ! j"
    and other: "\<forall>j<length cl. j < Suc i \<or> Suc i + length fcs \<le> j \<longrightarrow> cs ! j = cl[i := fc] ! j"
    by simp_all
  have a: "\<forall>j<length (fc # fcs). cs ! (i + j) = (fc # fcs) ! j"
  proof (intro allI impI)
    fix j assume j: "j < length (fc # fcs)"
    show "cs ! (i + j) = (fc # fcs) ! j"
    proof (cases j)
      case 0
      from other i have "cs ! i = cl[i := fc] ! i" by simp
      with i 0 show ?thesis by simp
    next
      case (Suc j')
      with j have "j' < length fcs" by simp
      with fixed have "cs ! (Suc i + j') = fcs ! j'" by blast
      with Suc show ?thesis by simp
    qed
  qed
  have b: "\<forall>j<length cl. j < i \<or> i + length (fc # fcs) \<le> j \<longrightarrow> cs ! j = cl ! j"
  proof (intro allI impI)
    fix j assume j: "j < length cl" and out: "j < i \<or> i + length (fc # fcs) \<le> j"
    then have "j < Suc i \<or> Suc i + length fcs \<le> j" and ne: "j \<noteq> i" by auto
    with other j have "cs ! j = cl[i := fc] ! j" by blast
    with ne show "cs ! j = cl ! j" by simp
  qed
  from bound have c: "i + length (fc # fcs) \<le> length cl" by simp
  from len c a b show ?case by (intro conjI)
qed

lemma override_fixed_prefix:
  assumes "override_fixed cl 0 fcs = Inr cs"
  shows "length cs = length cl" and "length fcs \<le> length cl" and "take (length fcs) cs = fcs"
proof -
  from override_fixed_spec [OF assms] have len: "length cs = length cl"
    and bound: "length fcs \<le> length cl" and fixed: "\<forall>j<length fcs. cs ! j = fcs ! j"
    by simp_all
  show "length cs = length cl" by fact
  show "length fcs \<le> length cl" by fact
  show "take (length fcs) cs = fcs"
  proof (rule nth_equalityI)
    show "length (take (length fcs) cs) = length fcs" using len bound by simp
  next
    fix j assume "j < length (take (length fcs) cs)"
    then have "j < length fcs" by simp
    with fixed show "take (length fcs) cs ! j = fcs ! j" by simp
  qed
qed

lemma optimize_k_centers:
  assumes "optimize_k KMeans ors df rate_out_min sqft_per_lb cost_sqft fixed_cost consider_inbound
       inbound_rate_min inbound_pts fixed_centers use_drive_times ors_api_key init_pts k = Inr s"
  shows "take (length fixed_centers) (sol_centers s) = fixed_centers \<and>
      ((\<forall>n pts cl. KMeans n pts = Inr cl \<longrightarrow> int (length cl) = n) \<longrightarrow>
         int (length (sol_centers s)) = max k (int (length fixed_centers)))"
proof -
  from optimize_k_parts [OF assms] obtain cl where
    cl: "KMeans (max k (int (length fixed_centers))) init_pts = Inr cl"
    and ov: "override_fixed cl 0 fixed_centers = Inr (sol_centers s)"
    by blast
  note pre = override_fixed_prefix [OF ov]
  have "int (length (sol_centers s)) = max k (int (length fixed_centers))"
    if "(\<forall>n pts cl. KMeans n pts = Inr cl \<longrightarrow> int (length cl) = n)"
    using that cl pre(1) by simp
  with pre(3) show ?thesis by blast
qed

text \<open>
  C4. In the dictionary of every candidate \<open>k\<close>, and in the one \<^verbatim>\<open>optimize\<close> returns,
  the first \<^verbatim>\<open>len(fixed_centers)\<close> centers are the fixed centers as the caller gave
  them; and the list has \<open>max k (len fixed_centers)\<close> entries, given that the clustering
  library returns as many centers as the clusters it is asked for.
\<close>

theorem centers_count_and_fixed:
  "(optimize_k KMeans ors df rate_out_min sqft_per_lb cost_sqft fixed_cost consider_inbound
       inbound_rate_min inbound_pts fixed_centers use_drive_times ors_api_key init_pts k = Inr s \<longrightarrow>
      take (length fixed_centers) (sol_centers s) = fixed_centers \<and>
      ((\<forall>n pts cl. KMeans n pts = Inr cl \<longrightarrow> int (length cl) = n) \<longrightarrow>
         int (length (sol_centers s)) = max k (int (length fixed_centers)))) \<and>
   (optimize KMeans ors df k_vals rate_out_min sqft_per_lb cost_sqft fixed_cost consider_inbound
       inbound_rate_min inbound_opt fixed_opt rdc_list transfer_rate_min rdc_sqft_per_lb
       rdc_cost_per_sqft use_drive_times ors_api_key = Inr (Some s) \<longrightarrow>
      take (length (or_empty fixed_opt)) (sol_centers s) = or_empty fixed_opt \<and>
      ((\<forall>n pts cl. KMeans n pts = Inr cl \<longrightarrow> int (length cl) = n) \<longrightarrow>
         int (length (sol_centers s)) = max (sol_k s) (int (length (or_empty fixed_opt)))))"
proof (rule conjI)
  show "optimize_k KMeans ors df rate_out_min sqft_per_lb cost_sqft fixed_cost consider_inbound
       inbound_rate_min inbound_pts fixed_centers use_drive_times ors_api_key init_pts k = Inr s \<longrightarrow>
      take (length fixed_centers) (sol_centers s) = fixed_centers \<and>
      ((\<forall>n pts cl. KMeans n pts = Inr cl \<longrightarrow> int (length cl) = n) \<longrightarrow>
         int (length (sol_centers s)) = max k (int (length fixed_centers)))"
    by (rule impI) (rule optimize_k_centers)
next
  show "optimize KMeans ors df k_vals rate_out_min sqft_per_lb cost_sqft fixed_cost consider_inbound
       inbound_rate_min inbound_opt fixed_opt rdc_list transfer_rate_min rdc_sqft_per_lb
       rdc_cost_per_sqft use_drive_times ors_api_key = Inr (Some s) \<longrightarrow>
      take (length (or_empty fixed_opt)) (sol_centers s) = or_empty fixed_opt \<and>
      ((\<forall>n pts cl. KMeans n pts = Inr cl \<longrightarrow> int (length cl) = n) \<longrightarrow>
         int (length (sol_centers s)) = max (sol_k s) (int (length (or_empty fixed_opt))))"
  proof (rule impI)
    assume "optimize KMeans ors df k_vals rate_out_min sqft_per_lb cost_sqft fixed_cost consider_inbound
       inbound_rate_min inbound_opt fixed_opt rdc_list transfer_rate_min rdc_sqft_per_lb
       rdc_cost_per_sqft use_drive_times ors_api_key = Inr (Some s)"
    from optimize_returns_candidate [OF this] obtain k where
      c: "candidate KMeans ors df rate_out_min sqft_per_lb cost_sqft fixed_cost consider_inbound
       inbound_rate_min inbound_opt fixed_opt use_drive_times ors_api_key k = Inr s"
      by blast
    from c have k: "sol_k s = k" by (rule candidate_fields)
    from c show "take (length (or_empty fixed_opt)) (sol_centers s) = or_empty fixed_opt \<and>
      ((\<forall>n pts cl. KMeans n pts = Inr cl \<longrightarrow> int (length cl) = n) \<longrightarrow>
         int (length (sol_centers s)) = max (sol_k s) (int (length (or_empty fixed_opt))))"
      unfolding candidate_def k by (rule optimize_k_centers)
  qed
qed

lemma haversine_half_turn_west: "haversine_vec 0 0 (- 180) 0 = 39588 / 10 * pi"
  by (simp add: haversine_vec_def radians_def EARTH_RADIUS_MILES_def Let_def)

lemma first_k_points_count: "first_k_points n pts = Inr cl \<Longrightarrow> int (length cl) = n"
  by (auto simp: first_k_points_def split: if_splits)

text \<open>
  Two stores at the origin with two fixed centers half a turn away and \<open>k = 1\<close>: the
  two centers of the clustering are replaced by the fixed ones.
\<close>

theorem centers_count_and_fixed_witness:
  "\<exists>s. optimize_k first_k_points ors_down two_stores 1 1 1 5 False 0 [] [(180, 0), (- 180, 0)]
          False None [(0, 0), (0, 0), (180, 0), (- 180, 0)] 1 = Inr s \<and>
        take 2 (sol_centers s) = [(180, 0), (- 180, 0)] \<and>
        int (length (sol_centers s)) = max 1 2"
proof -
  obtain s where run:
    "optimize_k first_k_points ors_down two_stores 1 1 1 5 False 0 [] [(180, 0), (- 180, 0)]
       False None [(0, 0), (0, 0), (180, 0), (- 180, 0)] 1 = Inr s"
    by (simp add: optimize_k_def first_k_points_def two_stores_def assign_def assign_dists_def
        drive_time_matrix_def no_key_def fallback_minutes_def haversine_half_turn
        haversine_half_turn_west argmin_def Let_def)
  have lib: "\<forall>n pts cl. first_k_points n pts = Inr cl \<longrightarrow> int (length cl) = n"
    using first_k_points_count by blast
  note inst = centers_count_and_fixed [of first_k_points ors_down two_stores 1 1 1 5 False 0 "[]"
      "[(180, 0), (- 180, 0)]" False None "[(0, 0), (0, 0), (180, 0), (- 180, 0)]" 1 s]
  from inst [THEN conjunct1, THEN mp, OF run]
  have t: "take (length [(180 :: real, 0 :: real), (- 180, 0)]) (sol_centers s)
             = [(180, 0), (- 180, 0)]"
    and l: "int (length (sol_centers s)) = max 1 (int (length [(180 :: real, 0 :: real), (- 180, 0)]))"
    using lib by blast+
  from t have t': "take 2 (sol_centers s) = [(180, 0), (- 180, 0)]"
    by (simp add: numeral_2_eq_2)
  from l have l': "int (length (sol_centers s)) = max 1 2" by simp
  from run t' l' show ?thesis by blast
qed

section \<open>The inbound component\<close>

lemma supply_times_routed_or_fallback:
  assumes "routed_or_fallback ors api_key centers pts travel_time" and "(lon, lat, p) \<in> set pts"
  shows "supply_times ors lon lat centers api_key = Inr (map (travel_time (lon, lat)) centers)"
proof -
  from assms have h:
    "case drive_time_matrix ors [(lon, lat)] centers api_key of
       None \<Rightarrow> list_all (\<lambda>(c_lon, c_lat).
                  travel_time (lon, lat) (c_lon, c_lat) = fallback_minutes lon lat c_lon c_lat)
                centers
     | Some mat \<Rightarrow> (case mat of [] \<Rightarrow> False
                    | row # _ \<Rightarrow> row = map (travel_time (lon, lat)) centers)"
    unfolding routed_or_fallback_def list_all_iff by fast
  show ?thesis
  proof (cases "drive_time_matrix ors [(lon, lat)] centers api_key")
    case None
    with h have "\<forall>c\<in>set centers. travel_time (lon, lat) c = fallback_minutes lon lat (fst c) (snd c)"
      by (auto simp: list_all_iff)
    then have "map (\<lambda>(c_lon, c_lat). fallback_minutes lon lat c_lon c_lat) centers =
               map (travel_time (lon, lat)) centers"
      by (simp add: case_prod_unfold)
    with None show ?thesis by (simp add: supply_times_def)
  next
    case (Some mat)
    with h obtain row rest where "mat = row # rest" "row = map (travel_time (lon, lat)) centers"
      by (cases mat) auto
    with Some show ?thesis by (simp add: supply_times_def)
  qed
qed

lemma weighted_row_sum:
  assumes "length demand_per_wh = length centers"
  shows "np_mul (map (travel_time (lon, lat)) centers) demand_per_wh =
           Inr (map (\<lambda>(c, d). travel_time (lon, lat) c * d) (zip centers demand_per_wh))"
  using assms by (simp add: np_mul_def zip_map1 case_prod_unfold)

lemma transfer_loop_formula:
  assumes "routed_or_fallback ors api_key centers pts travel_time"
    and "length demand_per_wh = length centers"
  shows "transfer_loop ors centers demand_per_wh r api_key pts cost =
           Inr (cost + inbound_formula travel_time pts centers demand_per_wh r)"
  using assms(1)
proof (induction pts arbitrary: cost)
  case Nil
  show ?case by (simp add: inbound_formula_def)
next
  case (Cons pt pts)
  obtain lon lat p where pt: "pt = (lon, lat, p)" by (cases pt) auto
  from Cons.prems have rest: "routed_or_fallback ors api_key centers pts travel_time"
    by (simp add: routed_or_fallback_def)
  have st: "supply_times ors lon lat centers api_key = Inr (map (travel_time (lon, lat)) centers)"
    by (rule supply_times_routed_or_fallback [OF Cons.prems, of lon lat p]) (simp add: pt)
  have "transfer_loop ors centers demand_per_wh r api_key (pt # pts) cost =
        transfer_loop ors centers demand_per_wh r api_key pts
          (cost + sum_list (map (\<lambda>(c, d). travel_time (lon, lat) c * d * p * r)
                 (zip centers demand_per_wh)))"
    by (simp add: pt st weighted_row_sum [OF assms(2)] case_prod_unfold comp_def)
  also have "\<dots> = Inr (cost + sum_list (map (\<lambda>(c, d). travel_time (lon, lat) c * d * p * r)
                 (zip centers demand_per_wh))
               + inbound_formula travel_time pts centers demand_per_wh r)"
    by (rule Cons.IH [OF rest])
  also have "\<dots> = Inr (cost + inbound_formula travel_time (pt # pts) centers demand_per_wh r)"
    by (simp add: inbound_formula_def pt)
  finally show ?case .
qed

lemma transfer_time_multi_formula:
  assumes "routed_or_fallback ors api_key centers pts travel_time"
    and "length demand_per_wh = length centers" and "centers \<noteq> []"
  shows "transfer_time_multi ors pts centers demand_per_wh r api_key =
           Inr (inbound_formula travel_time pts centers demand_per_wh r)"
proof (cases "pts = []")
  case True
  then show ?thesis by (simp add: transfer_time_multi_def inbound_formula_def)
next
  case False
  with assms(3) transfer_loop_formula [OF assms(1,2), of r 0] show ?thesis
    by (simp add: transfer_time_multi_def)
qed

text \<open>
  C7. With the inbound flag set, the inbound component of a candidate's dictionary is the
  sum, over every supply point (share \<open>p\<close>) and every center \<open>c\<close> (demand \<open>d\<^sub>c\<close>), of
  \<open>travel_time (supply, c) * d\<^sub>c * p * r\<close>, the travel time being the routed one or the
  fallback; nothing is asked of the shares, each one weighs its own supply point. With the
  flag off the component is 0.
\<close>

theorem inbound_cost_formula:
  assumes "optimize_k KMeans ors df rate_out_min sqft_per_lb cost_sqft fixed_cost consider_inbound
       inbound_rate_min inbound_pts fixed_centers use_drive_times ors_api_key init_pts k = Inr s"
    and "consider_inbound \<longrightarrow>
           routed_or_fallback ors (if use_drive_times then ors_api_key else None) (sol_centers s)
             inbound_pts travel_time"
  shows "sol_in_cost s =
           (if consider_inbound
            then inbound_formula travel_time inbound_pts (sol_centers s) (sol_demand_per_wh s)
                   inbound_rate_min
            else 0)"
proof -
  let ?key = "if use_drive_times then ors_api_key else None"
  from optimize_k_parts [OF assms(1)] obtain idx tmin where
    a: "assign ors df (sol_centers s) ?key = Inr (idx, tmin)"
    and inb: "(if consider_inbound
               then transfer_time_multi ors inbound_pts (sol_centers s) (sol_demand_per_wh s)
                      inbound_rate_min ?key
               else Inr 0) = Inr (sol_in_cost s)"
    by blast
  show ?thesis
  proof (cases consider_inbound)
    case False
    with inb show ?thesis by simp
  next
    case True
    with assms(2) have tt: "routed_or_fallback ors ?key (sol_centers s) inbound_pts travel_time"
      by simp
    have ne: "sol_centers s \<noteq> []" using assign_shape(1) [OF a] .
    have len: "length (sol_demand_per_wh s) = length (sol_centers s)"
      using optimize_k_conserves [OF assms(1)] by simp
    from transfer_time_multi_formula [OF tt len ne, of inbound_rate_min] inb True
    show ?thesis by simp
  qed
qed

lemma haversine_half_turn_back: "haversine_vec 180 0 0 0 = 39588 / 10 * pi"
  by (simp add: haversine_vec_def radians_def EARTH_RADIUS_MILES_def Let_def)

text \<open>
  Two stores of 10 lbs at the origin, one center there, and two supply points half a turn
  away with the shares 0.5 and 0.7, which do not add up to 1.
\<close>

theorem inbound_cost_formula_witness:
  "\<exists>s. optimize_k first_k_points ors_down two_stores 1 1 1 5 True 1
          [(180, 0, 1 / 2), (180, 0, 7 / 10)] [] False None [(0, 0), (0, 0)] 1 = Inr s \<and>
        sol_in_cost s =
          inbound_formula (\<lambda>(a, b) (c, d). fallback_minutes a b c d)
            [(180, 0, 1 / 2), (180, 0, 7 / 10)] [(0, 0)] [20] 1 \<and>
        sol_in_cost s = 24 * (39588 / 10 * pi / 50 * 60)"
proof -
  have "\<exists>s. optimize_k first_k_points ors_down two_stores 1 1 1 5 True 1
          [(180, 0, 1 / 2), (180, 0, 7 / 10)] [] False None [(0, 0), (0, 0)] 1 = Inr s \<and>
        sol_centers s = [(0, 0)] \<and> sol_demand_per_wh s = [20]"
    by (simp add: optimize_k_def first_k_points_def two_stores_def assign_def assign_dists_def
        drive_time_matrix_def no_key_def fallback_minutes_def haversine_vec_same
        haversine_half_turn_back argmin_def with_assignment_def demand_at_def
        transfer_time_multi_def supply_times_def np_mul_def Let_def)
  then obtain s where
    run: "optimize_k first_k_points ors_down two_stores 1 1 1 5 True 1
            [(180, 0, 1 / 2), (180, 0, 7 / 10)] [] False None [(0, 0), (0, 0)] 1 = Inr s"
    and c: "sol_centers s = [(0, 0)]" and d: "sol_demand_per_wh s = [20]"
    by blast
  have hyp: "True \<longrightarrow>
           routed_or_fallback ors_down (if False then None else None) (sol_centers s)
             [(180, 0, 1 / 2), (180, 0, 7 / 10)] (\<lambda>(a, b) (c, d). fallback_minutes a b c d)"
    by (simp add: c routed_or_fallback_def drive_time_matrix_def no_key_def)
  from inbound_cost_formula [OF run hyp]
  have v: "sol_in_cost s =
          inbound_formula (\<lambda>(a, b) (c, d). fallback_minutes a b c d)
            [(180, 0, 1 / 2), (180, 0, 7 / 10)] [(0, 0)] [20] 1"
    by (simp add: c d)
  have "inbound_formula (\<lambda>(a, b) (c, d). fallback_minutes a b c d)
            [(180, 0, 1 / 2), (180, 0, 7 / 10)] [(0, 0)] [20] 1 = 24 * (39588 / 10 * pi / 50 * 60)"
    by (simp add: inbound_formula_def fallback_minutes_def haversine_half_turn_back)
  with run v show ?thesis by auto
qed

section \<open>The transfer component\<close>

text \<open>
  Without a key \<^verbatim>\<open>_inbound_cost_to_multiple_rdcs\<close> computes the transfer formula of the
  specification: the total demand split evenly over the redistribution centers, and for
  each pair of a redistribution center and a supply point the product of the fallback
  travel time, the even share, the inbound share and the rate.
\<close>

lemma rdc_supply_loop_fallback:
  assumes "no_key api_key"
  shows "rdc_supply_loop ors share inbound_rate api_key r_lon r_lat pts cost =
           Inr (cost + sum_list (map (\<lambda>(lon, lat, pct).
                         fallback_minutes r_lon r_lat lon lat * share * pct * inbound_rate) pts))"
proof (induction pts arbitrary: cost)
  case Nil
  show ?case by simp
next
  case (Cons pt pts)
  obtain lon lat pct where pt: "pt = (lon, lat, pct)" by (cases pt) auto
  have "drive_time_single ors r_lon r_lat lon lat api_key = Inr (fallback_minutes r_lon r_lat lon lat)"
    by (simp add: drive_time_single_def drive_time_matrix_no_key [OF assms])
  with Cons.IH show ?case by (simp add: pt)
qed

lemma rdc_loop_fallback:
  assumes "no_key api_key"
  shows "rdc_loop ors share inbound_rate api_key pts rdcs cost =
           Inr (cost + sum_list (map (\<lambda>(r_lon, r_lat).
                         sum_list (map (\<lambda>(lon, lat, pct).
                           fallback_minutes r_lon r_lat lon lat * share * pct * inbound_rate) pts))
                       rdcs))"
proof (induction rdcs arbitrary: cost)
  case Nil
  show ?case by simp
next
  case (Cons rdc rdcs)
  obtain r_lon r_lat where rdc: "rdc = (r_lon, r_lat)" by (cases rdc) auto
  show ?case
    by (simp add: rdc rdc_supply_loop_fallback [OF assms] Cons.IH)
qed

lemma inbound_cost_to_multiple_rdcs_fallback:
  assumes "no_key api_key"
  shows "inbound_cost_to_multiple_rdcs ors total_demand pts inbound_rate rdcs api_key =
           Inr (sum_list (map (\<lambda>(r_lon, r_lat).
                  sum_list (map (\<lambda>(lon, lat, pct).
                    fallback_minutes r_lon r_lat lon lat * (total_demand / real (length rdcs)) *
                      pct * inbound_rate) pts))
                rdcs))"
proof (cases "pts = [] \<or> rdcs = []")
  case True
  then show ?thesis
  proof
    assume "pts = []"
    then show ?thesis by (simp add: inbound_cost_to_multiple_rdcs_def case_prod_unfold)
  next
    assume "rdcs = []"
    then show ?thesis by (simp add: inbound_cost_to_multiple_rdcs_def)
  qed
next
  case False
  then show ?thesis
    by (simp add: inbound_cost_to_multiple_rdcs_def Let_def rdc_loop_fallback [OF assms])
qed

lemma haversine_half_turn_west_back: "haversine_vec (- 180) 0 0 0 = 39588 / 10 * pi"
  by (simp add: haversine_vec_def radians_def EARTH_RADIUS_MILES_def Let_def)

lemma two_stores_inbound_k1:
  "candidate first_k_points ors_down two_stores 1 1 1 5 True 1 (Some [(0, 0, 1)]) None False None 1
     = Inr two_stores_best"
  by (simp add: candidate_def or_empty_def optimize_k_def first_k_points_def two_stores_def
      assign_def assign_dists_def drive_time_matrix_def no_key_def fallback_minutes_same
      argmin_def with_assignment_def demand_at_def warehousing_cost_def
      transfer_time_multi_def supply_times_def np_mul_def Let_def two_stores_best_def)

text \<open>
  C1. Two redistribution-only centers half a turn away from the one supply point, which has
  the share 1, a transfer rate of 1 and 20 lbs of demand: the specified transfer formula, which
  \<^verbatim>\<open>_inbound_cost_to_multiple_rdcs\<close> computes, gives a positive transfer cost, and the
  dictionary that \<^verbatim>\<open>optimize\<close> returns has the transfer cost 0, because
  \<^verbatim>\<open>optimize\<close> never calls that function.
\<close>

theorem transfer_cost_left_at_zero:
  "optimize first_k_points ors_down two_stores [1] 1 1 1 5 True 1 (Some [(0, 0, 1)]) None
     (Some [\<lparr>rdc_coords = (180, 0), rdc_is_sdc = False\<rparr>,
            \<lparr>rdc_coords = (- 180, 0), rdc_is_sdc = False\<rparr>])
     1 None None False None = Inr (Some two_stores_best) \<and>
   sol_trans_cost two_stores_best = 0 \<and>
   inbound_cost_to_multiple_rdcs ors_down 20 [(0, 0, 1)] 1 [(180, 0), (- 180, 0)] None =
     Inr (fallback_minutes 180 0 0 0 * (20 / 2) * 1 * 1 +
          fallback_minutes (- 180) 0 0 0 * (20 / 2) * 1 * 1) \<and>
   0 < fallback_minutes 180 0 0 0 * (20 / 2) * 1 * 1 +
       fallback_minutes (- 180) 0 0 0 * (20 / 2) * 1 * 1"
proof (intro conjI)
  show "optimize first_k_points ors_down two_stores [1] 1 1 1 5 True 1 (Some [(0, 0, 1)]) None
     (Some [\<lparr>rdc_coords = (180, 0), rdc_is_sdc = False\<rparr>,
            \<lparr>rdc_coords = (- 180, 0), rdc_is_sdc = False\<rparr>])
     1 None None False None = Inr (Some two_stores_best)"
    by (simp add: optimize_as_loop two_stores_inbound_k1)
next
  show "sol_trans_cost two_stores_best = 0"
    by (simp add: two_stores_best_def)
next
  show "inbound_cost_to_multiple_rdcs ors_down 20 [(0, 0, 1)] 1 [(180, 0), (- 180, 0)] None =
     Inr (fallback_minutes 180 0 0 0 * (20 / 2) * 1 * 1 +
          fallback_minutes (- 180) 0 0 0 * (20 / 2) * 1 * 1)"
    by (simp add: inbound_cost_to_multiple_rdcs_def drive_time_single_def drive_time_matrix_def
        no_key_def Let_def)
next
  show "0 < fallback_minutes 180 0 0 0 * (20 / 2) * 1 * 1 +
       fallback_minutes (- 180) 0 0 0 * (20 / 2) * 1 * 1"
    by (simp add: fallback_minutes_def haversine_half_turn_back haversine_half_turn_west_back)
qed

section \<open>Recovery from failures of the routing service\<close>




















section \<open>The demand totals in binary64\<close>

lemma round_to_multiple: "round_to e (of_int m * 2 powi e) = of_int m * 2 powi e"
  by (simp add: round_to_def Let_def)



lemma exponent_from_le:
  "e \<le> e0 \<Longrightarrow> \<bar>x\<bar> < 2 powi (e0 + 53) \<Longrightarrow> exponent_from n e x \<le> e0"
proof (induction n arbitrary: e)
  case 0
  then show ?case by simp
next
  case (Suc n)
  show ?case
  proof (cases "\<bar>x\<bar> < 2 powi (e + 53)")
    case True
    with Suc.prems show ?thesis by simp
  next
    case False
    with Suc.prems(2) have "e \<noteq> e0" by auto
    with Suc.prems(1) have "e + 1 \<le> e0" by simp
    from Suc.IH [OF this Suc.prems(2)] False show ?thesis by simp
  qed
qed

lemma exponent64_whole: "\<bar>x\<bar> < 2 ^ 53 \<Longrightarrow> exponent64 x \<le> 0"
  unfolding exponent64_def by (rule exponent_from_le) simp_all

text \<open>A whole number below \<open>2\<^sup>5\<^sup>3\<close> in magnitude is a binary64 number.\<close>

lemma round64_whole:
  assumes z: "x \<in> \<int>" and b: "\<bar>x\<bar> < 2 ^ 53"
  shows "round64 x = Some x"
proof -
  from z obtain m :: int where m: "x = of_int m" by (auto elim: Ints_cases)
  define e where "e = exponent64 x"
  have e: "e \<le> 0" unfolding e_def using b by (rule exponent64_whole)
  have p: "(2::real) powi e * 2 ^ nat (- e) = 1"
    using e by (simp add: power_int_def field_simps flip: power_mult_distrib)
  have "x = of_int (m * 2 ^ nat (- e)) * 2 powi e"
    using p by (simp add: m mult.assoc mult.commute [of "2 ^ nat (- e)"])
  then have "round_to e x = x"
    using round_to_multiple [of e "m * 2 ^ nat (- e)"] by simp
  moreover have "\<bar>x\<bar> < 2 powi 1024"
  proof -
    have "(2::real) ^ 53 \<le> 2 ^ 1024" by (rule power_increasing) simp_all
    with b show ?thesis by simp
  qed
  ultimately show ?thesis by (simp add: round64_def Let_def flip: e_def)
qed










lemma round64_zero: "round64 0 = Some 0"
  using round64_whole [of 0] by simp




















end
